theory Spec2Isabelle
  imports Complex_Main "HOL-Library.AList"
begin

section \<open>Python values, dictionaries and exceptions\<close>

text \<open>
  The orchestration code of \<^verbatim>\<open>ansible_rulebook/app.py\<close> moves values around without
  looking inside them. A Python value of type \<^verbatim>\<open>Any\<close> is kept as the string that
  \<^verbatim>\<open>str()\<close> gives for it, and a \<^verbatim>\<open>dict\<close> with string keys as an association list
  in insertion order. An attribute that holds \<^verbatim>\<open>None\<close> or a string is a
  \<open>string option\<close>; its truth value in an \<^verbatim>\<open>if\<close> is \<open>truthy\<close>.
\<close>

type_synonym pyval = string
type_synonym pydict = "(string \<times> pyval) list"

definition truthy :: "string option \<Rightarrow> bool" where
  "truthy v = (case v of None \<Rightarrow> False | Some s \<Rightarrow> s \<noteq> [])"

definition str_of :: "string option \<Rightarrow> string" where
  "str_of v = (case v of None \<Rightarrow> ''None'' | Some s \<Rightarrow> s)"

text \<open>
  The exceptions that \<^verbatim>\<open>app.py\<close> raises itself, each with its message, and one
  constructor for a failure raised inside a collaborator that is not part of the file
  (YAML loading, vault decryption, the controller client, the rule engine).
\<close>

datatype exc =
    WebSocketExchangeException string
  | KeyError string
  | TypeError string
  | ValueError string
  | RulebookNotFoundException string
  | InventoryNeededException string
  | InventoryNotFound string
  | ControllerNeededException string
  | InvalidUrlException string
  | Exception string
  | CollaboratorError string

definition bind_exc :: "exc + 'a \<Rightarrow> ('a \<Rightarrow> exc + 'b) \<Rightarrow> exc + 'b" where
  "bind_exc m f = (case m of Inl e \<Rightarrow> Inl e | Inr x \<Rightarrow> f x)"

definition raise_if :: "bool \<Rightarrow> exc \<Rightarrow> exc + unit" where
  "raise_if b e = (if b then Inl e else Inr ())"

section \<open>Rule sets, start-up arguments and the command line\<close>

type_synonym EventSource = string

record Action =
  action :: string
  action_args :: pyval

record Rule =
  name :: string
  actions :: "Action list"

record RuleSet =
  sources :: "EventSource list"
  rules :: "Rule list"

record StartupArgs =
  rulesets :: "RuleSet list"
  variables :: pydict
  env_vars :: pydict
  inventory :: "string option"
  project_data_file :: "string option"
  controller_url :: "string option"
  controller_token :: "string option"
  controller_ssl_verify :: "string option"
  controller_username :: "string option"
  controller_password :: "string option"
  check_controller_connection :: bool
  check_vault :: bool

text \<open>The attributes of \<^verbatim>\<open>parsed_args\<close> that \<^verbatim>\<open>app.py\<close> reads.\<close>

record parsed_args =
  arg_worker :: bool
  arg_websocket_url :: "string option"
  arg_id :: "string option"
  arg_vars :: "string option"
  arg_env_vars :: "string option"
  arg_rulebook :: "string option"
  arg_hot_reload :: bool
  arg_inventory :: "string option"
  arg_project_tarball :: "string option"
  arg_controller_url :: "string option"
  arg_controller_token :: "string option"
  arg_controller_ssl_verify :: "string option"
  arg_controller_username :: "string option"
  arg_controller_password :: "string option"
  arg_source_dir :: "string option"
  arg_shutdown_delay :: real

definition INVENTORY_ACTIONS :: "string list" where
  "INVENTORY_ACTIONS = [''run_playbook'', ''run_module'']"

definition CONTROLLER_ACTIONS :: "string list" where
  "CONTROLLER_ACTIONS = [''run_job_template'', ''run_workflow_template'']"

section \<open>Tasks, queues and the trace of a run\<close>

text \<open>
  An \<^verbatim>\<open>asyncio.Queue\<close> and an \<^verbatim>\<open>asyncio.Task\<close> are objects with an identity. The
  model keeps them in two growing lists: the identity of an object is its position, so a
  new object never coincides with an older one. Of a queue the model keeps its
  \<^verbatim>\<open>maxsize\<close>, of a task the coroutine it runs.
\<close>

datatype event_log = Asyncio_Queue nat | NullQueue

datatype coroutine =
    Start_source EventSource "string option list" pydict nat real
  | Send_event_log_to_websocket event_log

type_synonym RuleSetQueue = "RuleSet \<times> nat"

record job_template_runner =
  host :: "string option"
  token :: "string option"
  verify_ssl :: "string option"
  username :: "string option"
  password :: "string option"

text \<open>
  What \<^verbatim>\<open>asyncio.gather(..., return_exceptions=True)\<close> hands back for one task: the
  value the task returned, or the exception object it ended with. Of an exception
  object the model keeps what the code reads: the name of its type, its \<^verbatim>\<open>str()\<close>,
  its traceback, and whether it is an instance of \<^verbatim>\<open>Exception\<close> and of
  \<^verbatim>\<open>CancelledError\<close>.
\<close>

record frame =
  filename :: string
  lineno :: string
  frame_name :: string

record exception_object =
  type_name :: string
  str_value :: string
  traceback :: "frame list option"
  instance_of_Exception :: bool
  instance_of_CancelledError :: bool

datatype result = Returned pyval | Raised exception_object

fun isinstance_Exception :: "result \<Rightarrow> bool" where
  "isinstance_Exception (Returned v) = False"
| "isinstance_Exception (Raised x) = instance_of_Exception x"

fun isinstance_CancelledError :: "result \<Rightarrow> bool" where
  "isinstance_CancelledError (Returned v) = False"
| "isinstance_CancelledError (Raised x) = instance_of_CancelledError x"

text \<open>
  The trace lists, in program order, the calls that \<^verbatim>\<open>run\<close> makes and the effects
  on the process: log lines, environment variables, new queues and tasks. Of the call of
  \<^verbatim>\<open>run_rulesets\<close> it keeps the event log, the queues and the file to monitor.
\<close>

datatype event =
    Logger string string
  | Startup_logging
  | Request_workload "string option"
  | Validate_actions
  | Validate_variables
  | Decrypted_context
  | Substitute_variables
  | Setenv string string
  | Validate_url "string option" string
  | Get_config
  | New_queue nat nat
  | Create_task nat coroutine
  | Run_rulesets event_log "RuleSetQueue list" "string option"
  | Put event_log pydict
  | Wait "nat list" real
  | Cancel nat
  | Gather "nat list"
  | Close_session

record state =
  os_environ :: "(string \<times> string) list"
  queues :: "nat list"
  tasks :: "coroutine list"
  runner :: job_template_runner
  trace :: "event list"

section \<open>The collaborators\<close>

text \<open>
  Everything \<^verbatim>\<open>app.py\<close> imports from the rest of the package, the file system and
  the settings are outside the file. One \<open>world\<close> gives their answers during one
  invocation of \<^verbatim>\<open>run\<close>. \<open>StartupArgs_new\<close> is the value of \<^verbatim>\<open>StartupArgs()\<close>,
  whose class is declared in \<^verbatim>\<open>common.py\<close>; \<open>task_result\<close> is the outcome that
  \<^verbatim>\<open>gather\<close> reports for a task once it has been cancelled. A collaborator that can
  fail answers \<open>Inl msg\<close>, which \<open>collaborator\<close> turns into the exception that
  propagates through \<^verbatim>\<open>app.py\<close>; the exception classes that \<^verbatim>\<open>app.py\<close> raises
  itself are raised by \<^verbatim>\<open>app.py\<close> only. The answer of \<open>get_config\<close> is the
  \<^verbatim>\<open>"version"\<close> entry of the configuration. The answer of \<open>run_rulesets\<close> may depend
  on the file to monitor; its other arguments are fixed by the pass.

  The model takes every awaited collaborator to come to an end: the rule engine returns
  or raises, and every task has a result once it has been cancelled. A source that
  ignores its cancellation would keep \<^verbatim>\<open>gather\<close> waiting; that is left out.
\<close>

record world =
  os_path_exists :: "string \<Rightarrow> bool"
  str_strip :: "string \<Rightarrow> string"
  str_repr :: "string \<Rightarrow> string"
  request_workload :: "string option \<Rightarrow> StartupArgs option"
  StartupArgs_new :: StartupArgs
  read_vars_file :: "string \<Rightarrow> string + pydict"
  parse_rulebook_file :: "string \<Rightarrow> pydict \<Rightarrow> string + bool \<times> RuleSet list"
  has_rulebook :: "string \<Rightarrow> string + bool"
  collection_load_rulebook :: "string \<Rightarrow> string + bool \<times> RuleSet list"
  decryptable :: "pyval \<Rightarrow> string + unit"
  decryptable_dict :: "pydict \<Rightarrow> string + unit"
  decrypted_context :: "pydict \<Rightarrow> string + pydict"
  substitute_variables :: "pydict \<Rightarrow> pydict \<Rightarrow> string + pydict"
  validate_url :: "string option \<Rightarrow> string \<Rightarrow> bool"
  get_config :: "job_template_runner \<Rightarrow> string + pyval"
  max_feedback_timeout :: real
  run_rulesets :: "string option \<Rightarrow> string + bool"
  task_result :: "nat \<Rightarrow> result"

definition collaborator :: "string + 'a \<Rightarrow> exc + 'a" where
  "collaborator r = (case r of Inl msg \<Rightarrow> Inl (CollaboratorError msg) | Inr x \<Rightarrow> Inr x)"

text \<open>
  \<^verbatim>\<open>os.path.exists\<close> raises \<^verbatim>\<open>TypeError\<close> when it is given \<^verbatim>\<open>None\<close>.
\<close>

definition path_exists :: "world \<Rightarrow> string option \<Rightarrow> exc + bool" where
  "path_exists w p =
     (case p of
        None \<Rightarrow> Inl (TypeError ''stat: path should be string, bytes, os.PathLike or integer, not NoneType'')
      | Some f \<Rightarrow> Inr (os_path_exists w f))"

section \<open>validate_actions\<close>

text \<open>
  The body of the innermost loop of \<^verbatim>\<open>validate_actions\<close>, for one action of one rule.
  The checks run in the order of the source and the first that fails raises.
\<close>

definition validate_action :: "world \<Rightarrow> Rule \<Rightarrow> StartupArgs \<Rightarrow> Action \<Rightarrow> exc + StartupArgs" where
  "validate_action w rule startup_args a =
     (let startup_args1 =
            (if action a \<in> set CONTROLLER_ACTIONS
             then startup_args\<lparr>check_controller_connection := True\<rparr> else startup_args)
      in
      bind_exc (raise_if (action a \<in> set INVENTORY_ACTIONS \<and> \<not> truthy (inventory startup_args1))
                 (InventoryNeededException
                    (''Rule '' @ name rule @ '' has an action '' @ action a @
                     '' which needs inventory to be defined''))) (\<lambda>_.
      bind_exc (if action a \<in> set INVENTORY_ACTIONS
                then bind_exc (path_exists w (inventory startup_args1)) (\<lambda>found.
                       raise_if (\<not> found)
                         (InventoryNotFound
                            (''Inventory '' @ str_of (inventory startup_args1) @ '' not found'')))
                else Inr ()) (\<lambda>_.
      bind_exc (raise_if (action a \<in> set CONTROLLER_ACTIONS
                          \<and> \<not> truthy (controller_url startup_args1)
                          \<and> \<not> truthy (controller_token startup_args1))
                 (ControllerNeededException
                    (''Rule '' @ name rule @ '' has an action '' @ action a @
                     '' which needs controller url and token to be defined''))) (\<lambda>_.
      bind_exc (if check_vault startup_args1 then collaborator (decryptable w (action_args a)) else Inr ()) (\<lambda>_.
      Inr startup_args1)))))"

fun validate_rule_actions :: "world \<Rightarrow> Rule \<Rightarrow> Action list \<Rightarrow> StartupArgs \<Rightarrow> exc + StartupArgs" where
  "validate_rule_actions w rule [] startup_args = Inr startup_args"
| "validate_rule_actions w rule (a # as) startup_args =
     bind_exc (validate_action w rule startup_args a) (validate_rule_actions w rule as)"

fun validate_rules :: "world \<Rightarrow> Rule list \<Rightarrow> StartupArgs \<Rightarrow> exc + StartupArgs" where
  "validate_rules w [] startup_args = Inr startup_args"
| "validate_rules w (rule # rs) startup_args =
     bind_exc (validate_rule_actions w rule (actions rule) startup_args) (validate_rules w rs)"

fun validate_rulesets :: "world \<Rightarrow> RuleSet list \<Rightarrow> StartupArgs \<Rightarrow> exc + StartupArgs" where
  "validate_rulesets w [] startup_args = Inr startup_args"
| "validate_rulesets w (ruleset # rss) startup_args =
     bind_exc (validate_rules w (rules ruleset) startup_args) (validate_rulesets w rss)"

definition validate_actions :: "world \<Rightarrow> StartupArgs \<Rightarrow> exc + StartupArgs" where
  "validate_actions w startup_args = validate_rulesets w (rulesets startup_args) startup_args"

text \<open>
  The actions of all rule sets with the rule each belongs to, in the order in which the
  three nested loops of \<^verbatim>\<open>validate_actions\<close> visit them.
\<close>

definition rule_actions :: "Rule \<Rightarrow> (Rule \<times> Action) list" where
  "rule_actions rule = map (Pair rule) (actions rule)"

definition all_actions :: "RuleSet list \<Rightarrow> (Rule \<times> Action) list" where
  "all_actions rss = concat (map (\<lambda>ruleset. concat (map rule_actions (rules ruleset))) rss)"

section \<open>Computations that change the state and may raise\<close>

type_synonym 'a comp = "state \<Rightarrow> (exc + 'a) \<times> state"

definition returns :: "'a \<Rightarrow> 'a comp" where
  "returns x s = (Inr x, s)"

definition raise :: "exc \<Rightarrow> 'a comp" where
  "raise e s = (Inl e, s)"

definition bind_st :: "'a comp \<Rightarrow> ('a \<Rightarrow> 'b comp) \<Rightarrow> 'b comp" where
  "bind_st m f s = (case m s of (Inl e, s1) \<Rightarrow> (Inl e, s1) | (Inr x, s1) \<Rightarrow> f x s1)"

definition lift_exc :: "exc + 'a \<Rightarrow> 'a comp" where
  "lift_exc r s = (r, s)"

definition lift_st :: "(state \<Rightarrow> 'a \<times> state) \<Rightarrow> 'a comp" where
  "lift_st f s = (case f s of (x, s1) \<Rightarrow> (Inr x, s1))"

definition emit :: "event \<Rightarrow> unit comp" where
  "emit e s = (Inr (), s\<lparr>trace := trace s @ [e]\<rparr>)"

definition logger :: "string \<Rightarrow> string \<Rightarrow> unit comp" where
  "logger level msg = emit (Logger level msg)"

text \<open>\<^verbatim>\<open>asyncio.Queue(maxsize)\<close> and \<^verbatim>\<open>asyncio.create_task(coro)\<close>.\<close>

definition asyncio_Queue :: "nat \<Rightarrow> state \<Rightarrow> nat \<times> state" where
  "asyncio_Queue maxsize s =
     (length (queues s),
      s\<lparr>queues := queues s @ [maxsize],
        trace := trace s @ [New_queue (length (queues s)) maxsize]\<rparr>)"

definition create_task :: "coroutine \<Rightarrow> state \<Rightarrow> nat \<times> state" where
  "create_task coro s =
     (length (tasks s),
      s\<lparr>tasks := tasks s @ [coro],
        trace := trace s @ [Create_task (length (tasks s)) coro]\<rparr>)"

section \<open>load_vars and load_rulebook\<close>

text \<open>
  \<^verbatim>\<open>str.split(",")\<close>, on the bytes of the text. \<^verbatim>\<open>str.strip()\<close> and \<^verbatim>\<open>repr\<close>
  know about white space and escapes beyond ASCII; they are the world's \<open>str_strip\<close>
  and \<open>str_repr\<close>.
\<close>

fun split_comma :: "string \<Rightarrow> string list" where
  "split_comma [] = [[]]"
| "split_comma (c # cs) =
     (if c = CHR '','' then [] # split_comma cs
      else (case split_comma cs of [] \<Rightarrow> [[c]] | x # xs \<Rightarrow> (c # x) # xs))"

fun load_env_vars ::
  "world \<Rightarrow> string list \<Rightarrow> (string \<times> string) list \<Rightarrow> pydict \<Rightarrow> exc + pydict" where
  "load_env_vars w [] environ vars = Inr vars"
| "load_env_vars w (env_var # rest) environ vars =
     (case map_of environ (str_strip w env_var) of
        None \<Rightarrow>
          Inl (KeyError (''Could not find environment variable '' @
                         str_repr w (str_strip w env_var)))
      | Some v \<Rightarrow>
          load_env_vars w rest environ (AList.update (str_strip w env_var) v vars))"

fun dict_update :: "pydict \<Rightarrow> pydict \<Rightarrow> pydict" where
  "dict_update d [] = d"
| "dict_update d ((k, v) # kvs) = dict_update (AList.update k v d) kvs"

definition load_vars :: "world \<Rightarrow> parsed_args \<Rightarrow> pydict comp" where
  "load_vars w parsed_args =
     bind_st (case arg_vars parsed_args of
                None \<Rightarrow> returns []
              | Some f \<Rightarrow> if f = [] then returns []
                          else bind_st (lift_exc (collaborator (read_vars_file w f))) (\<lambda>loaded.
                               returns (dict_update [] loaded))) (\<lambda>vars.
     case arg_env_vars parsed_args of
       None \<Rightarrow> returns vars
     | Some names \<Rightarrow> if names = [] then returns vars
                      else (\<lambda>s. (load_env_vars w (split_comma names) (os_environ s) vars, s)))"

text \<open>
  \<^verbatim>\<open>load_rulebook\<close> as \<^verbatim>\<open>run\<close> calls it, with a \<^verbatim>\<open>startup_args\<close> object. Reading
  and parsing the file are the world's; the function returns the rule sets and the
  \<^verbatim>\<open>startup_args\<close> with \<^verbatim>\<open>check_vault\<close> set.
\<close>

definition load_rulebook :: "world \<Rightarrow> parsed_args \<Rightarrow> StartupArgs \<Rightarrow> exc + RuleSet list \<times> StartupArgs" where
  "load_rulebook w parsed_args startup_args =
     (case arg_rulebook parsed_args of
        None \<Rightarrow> Inr ([], startup_args)
      | Some rulebook \<Rightarrow>
          if rulebook = [] then Inr ([], startup_args)
          else if os_path_exists w rulebook then
            bind_exc (collaborator (parse_rulebook_file w rulebook (variables startup_args))) (\<lambda>(vaulted, rs).
              Inr (rs, startup_args\<lparr>check_vault := vaulted\<rparr>))
          else
            bind_exc (collaborator (has_rulebook w rulebook)) (\<lambda>has.
              if has then
                bind_exc (collaborator (collection_load_rulebook w rulebook)) (\<lambda>(vaulted, rs).
                  Inr (rs, startup_args\<lparr>check_vault := vaulted\<rparr>))
              else Inl (RulebookNotFoundException (''Could not find rulebook '' @ rulebook))))"

section \<open>spawn_sources\<close>

text \<open>
  The inner loop of \<^verbatim>\<open>spawn_sources\<close> over the sources of one rule set, all given the
  queue \<open>source_queue\<close>, and the outer loop over the rule sets, which makes the queue
  before it enters the inner loop. \<open>ts\<close> and \<open>ruleset_queues\<close> are the two lists the
  function appends to.
\<close>

fun spawn_ruleset_sources ::
  "EventSource list \<Rightarrow> string option list \<Rightarrow> pydict \<Rightarrow> nat \<Rightarrow> real \<Rightarrow> nat list \<Rightarrow> state
   \<Rightarrow> nat list \<times> state" where
  "spawn_ruleset_sources [] source_dirs vars source_queue shutdown_delay ts s = (ts, s)"
| "spawn_ruleset_sources (source # rest) source_dirs vars source_queue shutdown_delay ts s =
     (case create_task (Start_source source source_dirs vars source_queue shutdown_delay) s of
        (task, s1) \<Rightarrow>
          spawn_ruleset_sources rest source_dirs vars source_queue shutdown_delay (ts @ [task]) s1)"

fun spawn_rulesets ::
  "RuleSet list \<Rightarrow> pydict \<Rightarrow> string option list \<Rightarrow> real \<Rightarrow> nat list \<Rightarrow> RuleSetQueue list \<Rightarrow> state
   \<Rightarrow> (nat list \<times> RuleSetQueue list) \<times> state" where
  "spawn_rulesets [] vars source_dirs shutdown_delay ts ruleset_queues s =
     ((ts, ruleset_queues), s)"
| "spawn_rulesets (ruleset # rest) vars source_dirs shutdown_delay ts ruleset_queues s =
     (case asyncio_Queue 1 s of
        (source_queue, s1) \<Rightarrow>
          (case spawn_ruleset_sources (sources ruleset) source_dirs vars source_queue
                  shutdown_delay ts s1 of
             (ts1, s2) \<Rightarrow>
               spawn_rulesets rest vars source_dirs shutdown_delay ts1
                 (ruleset_queues @ [(ruleset, source_queue)]) s2))"

definition spawn_sources ::
  "RuleSet list \<Rightarrow> pydict \<Rightarrow> string option list \<Rightarrow> real \<Rightarrow> state
   \<Rightarrow> (nat list \<times> RuleSetQueue list) \<times> state" where
  "spawn_sources rss vars source_dirs shutdown_delay s =
     spawn_rulesets rss vars source_dirs shutdown_delay [] [] s"

section \<open>validate_variables and validate_controller_params\<close>

definition validate_variables :: "world \<Rightarrow> StartupArgs \<Rightarrow> exc + unit" where
  "validate_variables w startup_args = collaborator (decryptable_dict w (variables startup_args))"

text \<open>
  \<^verbatim>\<open>validate_controller_params\<close> sets the fields of the shared
  \<^verbatim>\<open>job_template_runner\<close>, asks it for the remote configuration and logs the version.
\<close>

definition set_runner :: "(job_template_runner \<Rightarrow> job_template_runner) \<Rightarrow> unit comp" where
  "set_runner f s = (Inr (), s\<lparr>runner := f (runner s)\<rparr>)"

definition call_get_config :: "world \<Rightarrow> pyval comp" where
  "call_get_config w = bind_st (emit Get_config) (\<lambda>_. (\<lambda>s. (collaborator (get_config w (runner s)), s)))"

definition validate_controller_params :: "world \<Rightarrow> StartupArgs \<Rightarrow> unit comp" where
  "validate_controller_params w startup_args =
     (if truthy (controller_url startup_args) then
        bind_st (emit (Validate_url (controller_url startup_args) ''controller'')) (\<lambda>_.
        bind_st (if \<not> validate_url w (controller_url startup_args) ''controller''
                 then raise (InvalidUrlException ''Invalid controller url.'')
                 else returns ()) (\<lambda>_.
        bind_st (set_runner (\<lambda>r. r\<lparr>host := controller_url startup_args,
                                     token := controller_token startup_args\<rparr>)) (\<lambda>_.
        bind_st (if truthy (controller_ssl_verify startup_args)
                 then set_runner (\<lambda>r. r\<lparr>verify_ssl := controller_ssl_verify startup_args\<rparr>)
                 else returns ()) (\<lambda>_.
        bind_st (if truthy (controller_username startup_args)
                    \<and> truthy (controller_password startup_args)
                 then set_runner (\<lambda>r. r\<lparr>username := controller_username startup_args,
                                           password := controller_password startup_args\<rparr>)
                 else returns ()) (\<lambda>_.
        bind_st (call_get_config w) (\<lambda>version.
        logger ''info'' (''AAP Version '' @ version)))))))
      else returns ())"

section \<open>run\<close>

text \<open>
  \<^verbatim>\<open>run\<close> is one long coroutine. The model cuts it into four parts, in the order of the
  source: \<open>run_load\<close> builds \<^verbatim>\<open>startup_args\<close> and \<^verbatim>\<open>file_monitor\<close> (lines 88 to
  117), \<open>run_validate\<close> validates and exports the environment (lines 119 to 129),
  \<open>run_start\<close> makes the event log and the tasks and calls the rule engine (lines 131 to
  161), \<open>run_shutdown\<close> stops and collects the tasks (lines 163 to 185).
\<close>

definition run_load :: "world \<Rightarrow> parsed_args \<Rightarrow> (StartupArgs \<times> string option) comp" where
  "run_load w parsed_args =
     (if arg_worker parsed_args \<and> truthy (arg_websocket_url parsed_args)
         \<and> truthy (arg_id parsed_args)
      then
        bind_st (emit Startup_logging) (\<lambda>_.
        bind_st (logger ''info'' ''Starting worker mode'') (\<lambda>_.
        bind_st (emit (Request_workload (arg_id parsed_args))) (\<lambda>_.
        case request_workload w (arg_id parsed_args) of
          None \<Rightarrow> raise (WebSocketExchangeException ''Error communicating with web socket server'')
        | Some startup_args \<Rightarrow> returns (startup_args, None))))
      else
        bind_st (load_vars w parsed_args) (\<lambda>vars.
        bind_st (lift_exc (load_rulebook w parsed_args ((StartupArgs_new w)\<lparr>variables := vars\<rparr>)))
          (\<lambda>(rs, startup_args).
        bind_st (if arg_hot_reload parsed_args then
                   bind_st (lift_exc (path_exists w (arg_rulebook parsed_args))) (\<lambda>found.
                     if found then
                       bind_st (logger ''critical''
                                  (''HOT-RELOAD: Hot-reload was requested, '' @
                                   ''will monitor for rulebook file changes'')) (\<lambda>_.
                       returns (arg_rulebook parsed_args))
                     else returns None)
                 else returns None) (\<lambda>file_monitor.
        returns
          (startup_args
             \<lparr>rulesets := rs,
              inventory := (if truthy (arg_inventory parsed_args) then arg_inventory parsed_args
                            else inventory startup_args),
              project_data_file := arg_project_tarball parsed_args,
              controller_url := arg_controller_url parsed_args,
              controller_token := arg_controller_token parsed_args,
              controller_ssl_verify := arg_controller_ssl_verify parsed_args,
              controller_username := arg_controller_username parsed_args,
              controller_password := arg_controller_password parsed_args\<rparr>,
           file_monitor)))))"

text \<open>
  \<^verbatim>\<open>os.environ[k] = str(v)\<close> for a key that is a string. The assignment raises
  \<^verbatim>\<open>ValueError\<close> when the name or the value holds a null byte, and when the name is
  empty or holds an equals sign; the variables exported before stay exported.
\<close>

definition putenv_error :: "string \<Rightarrow> string \<Rightarrow> exc option" where
  "putenv_error k v =
     (if CHR 0x00 \<in> set k \<or> CHR 0x00 \<in> set v then Some (ValueError ''embedded null byte'')
      else if k = [] \<or> CHR ''='' \<in> set k
      then Some (ValueError ''illegal environment variable name'')
      else None)"

definition setenv :: "string \<Rightarrow> string \<Rightarrow> unit comp" where
  "setenv k v s =
     (case putenv_error k v of
        Some e \<Rightarrow> (Inl e, s)
      | None \<Rightarrow>
          (Inr (), s\<lparr>os_environ := AList.update k v (os_environ s),
                     trace := trace s @ [Setenv k v]\<rparr>))"

fun export_env :: "pydict \<Rightarrow> unit comp" where
  "export_env [] = returns ()"
| "export_env ((k, v) # kvs) = bind_st (setenv k v) (\<lambda>_. export_env kvs)"

definition run_validate :: "world \<Rightarrow> StartupArgs \<Rightarrow> StartupArgs comp" where
  "run_validate w startup_args =
     bind_st (emit Validate_actions) (\<lambda>_.
     bind_st (lift_exc (validate_actions w startup_args)) (\<lambda>startup_args1.
     bind_st (emit Validate_variables) (\<lambda>_.
     bind_st (lift_exc (validate_variables w startup_args1)) (\<lambda>_.
     bind_st (emit Decrypted_context) (\<lambda>_.
     bind_st (lift_exc (collaborator (decrypted_context w (variables startup_args1)))) (\<lambda>vars.
     bind_st (returns (startup_args1\<lparr>variables := vars\<rparr>)) (\<lambda>startup_args2.
     bind_st (emit Substitute_variables) (\<lambda>_.
     bind_st (lift_exc (collaborator
                (substitute_variables w (env_vars startup_args2) (variables startup_args2))))
       (\<lambda>env.
     bind_st (returns (startup_args2\<lparr>env_vars := env\<rparr>)) (\<lambda>startup_args3.
     bind_st (export_env (env_vars startup_args3)) (\<lambda>_.
     bind_st (if check_controller_connection startup_args3
              then validate_controller_params w startup_args3 else returns ()) (\<lambda>_.
     returns startup_args3))))))))))))"

definition call_run_rulesets ::
  "world \<Rightarrow> event_log \<Rightarrow> RuleSetQueue list \<Rightarrow> string option \<Rightarrow> bool comp" where
  "call_run_rulesets w event_log ruleset_queues file_monitor =
     bind_st (emit (Run_rulesets event_log ruleset_queues file_monitor)) (\<lambda>_.
     lift_exc (collaborator (run_rulesets w file_monitor)))"

definition run_start ::
  "world \<Rightarrow> parsed_args \<Rightarrow> StartupArgs \<Rightarrow> string option
   \<Rightarrow> (nat list \<times> event_log \<times> nat option \<times> bool) comp" where
  "run_start w parsed_args startup_args file_monitor =
     bind_st (if truthy (arg_websocket_url parsed_args)
              then bind_st (lift_st (asyncio_Queue 0)) (\<lambda>q. returns (Asyncio_Queue q))
              else returns NullQueue) (\<lambda>event_log.
     bind_st (logger ''info'' ''Starting sources'') (\<lambda>_.
     bind_st (lift_st (spawn_sources (rulesets startup_args) (variables startup_args)
                         [arg_source_dir parsed_args] (arg_shutdown_delay parsed_args)))
       (\<lambda>(ts, ruleset_queues).
     bind_st (logger ''info'' ''Starting rules'') (\<lambda>_.
     bind_st (if truthy (arg_websocket_url parsed_args)
              then bind_st (lift_st (create_task (Send_event_log_to_websocket event_log)))
                     (\<lambda>feedback_task. returns (Some feedback_task, ts @ [feedback_task]))
              else returns (None, ts)) (\<lambda>(feedback_task, ts1).
     bind_st (call_run_rulesets w event_log ruleset_queues file_monitor) (\<lambda>should_reload.
     returns (ts1, event_log, feedback_task, should_reload)))))))"

fun log_frames :: "frame list \<Rightarrow> unit comp" where
  "log_frames [] = returns ()"
| "log_frames (f # fs) =
     bind_st (logger ''error'' (filename f @ '':'' @ lineno f @ '' '' @ frame_name f)) (\<lambda>_.
     log_frames fs)"

definition log_exception_without_data :: "exception_object \<Rightarrow> unit comp" where
  "log_exception_without_data x =
     bind_st (logger ''error'' (type_name x @ '': '' @ str_value x)) (\<lambda>_.
     case traceback x of None \<Rightarrow> returns () | Some frames \<Rightarrow> log_frames (rev frames))"

fun cancel_all :: "nat list \<Rightarrow> unit comp" where
  "cancel_all [] = returns ()"
| "cancel_all (task # rest) = bind_st (emit (Cancel task)) (\<lambda>_. cancel_all rest)"

definition gather :: "world \<Rightarrow> nat list \<Rightarrow> result list comp" where
  "gather w ts = bind_st (emit (Gather ts)) (\<lambda>_. returns (map (task_result w) ts))"

text \<open>The loop over the results, with the flag \<^verbatim>\<open>error_found\<close> it maintains.\<close>

fun classify_results :: "result list \<Rightarrow> bool \<Rightarrow> bool comp" where
  "classify_results [] error_found = returns error_found"
| "classify_results (Returned v # rest) error_found = classify_results rest error_found"
| "classify_results (Raised x # rest) error_found =
     (if isinstance_Exception (Raised x) \<and> \<not> isinstance_CancelledError (Raised x)
      then bind_st (log_exception_without_data x) (\<lambda>_. classify_results rest True)
      else classify_results rest error_found)"

definition run_shutdown :: "world \<Rightarrow> event_log \<Rightarrow> nat option \<Rightarrow> nat list \<Rightarrow> bool comp" where
  "run_shutdown w event_log feedback_task ts =
     bind_st (emit (Put event_log [(''type'', ''Exit'')])) (\<lambda>_.
     bind_st (case feedback_task of
                None \<Rightarrow> returns ()
              | Some t \<Rightarrow> emit (Wait [t] (max_feedback_timeout w))) (\<lambda>_.
     bind_st (logger ''info'' ''Cancelling event source tasks'') (\<lambda>_.
     bind_st (cancel_all ts) (\<lambda>_.
     bind_st (gather w ts) (\<lambda>results.
     bind_st (classify_results results False) (\<lambda>error_found.
     bind_st (logger ''info'' ''Main complete'') (\<lambda>_.
     bind_st (emit Close_session) (\<lambda>_.
     returns error_found))))))))"

text \<open>
  One pass through the body of \<^verbatim>\<open>run\<close> up to line 185; it returns \<^verbatim>\<open>error_found\<close>
  and \<^verbatim>\<open>should_reload\<close>.
\<close>

definition run_once :: "world \<Rightarrow> parsed_args \<Rightarrow> (bool \<times> bool) comp" where
  "run_once w parsed_args =
     bind_st (run_load w parsed_args) (\<lambda>(startup_args, file_monitor).
     bind_st (run_validate w startup_args) (\<lambda>startup_args1.
     bind_st (run_start w parsed_args startup_args1 file_monitor)
       (\<lambda>(ts, event_log, feedback_task, should_reload).
     bind_st (run_shutdown w event_log feedback_task ts) (\<lambda>error_found.
     returns (error_found, should_reload)))))"

text \<open>
  \<^verbatim>\<open>run\<close> calls itself after a reload, with the same \<^verbatim>\<open>parsed_args\<close> and with no
  bound on the depth. Each invocation meets a world of its own (the rule book on disk has
  changed, to begin with), so the model takes the list of the worlds of the successive
  invocations. The result is \<open>None\<close> when the list ends while a further invocation is
  due, \<open>Some (Inl e)\<close> when \<^verbatim>\<open>run\<close> raises \<open>e\<close> and \<open>Some (Inr ())\<close> when it returns.
\<close>

fun run :: "world list \<Rightarrow> parsed_args \<Rightarrow> state \<Rightarrow> (exc + unit) option \<times> state" where
  "run [] parsed_args s = (None, s)"
| "run (w # ws) parsed_args s =
     (case run_once w parsed_args s of
        (Inl e, s1) \<Rightarrow> (Some (Inl e), s1)
      | (Inr (error_found, should_reload), s1) \<Rightarrow>
          if error_found then (Some (Inl (Exception ''One of the source plugins failed'')), s1)
          else if should_reload then
            (case logger ''critical'' ''HOT-RELOAD! rules file changed, now restarting'' s1 of
               (_, s2) \<Rightarrow> run ws parsed_args s2)
          else (Some (Inr ()), s1))"

section \<open>Inputs for the examples\<close>

definition initial_state :: state where
  "initial_state =
     \<lparr>os_environ = [], queues = [], tasks = [],
      runner = \<lparr>host = None, token = None, verify_ssl = None, username = None, password = None\<rparr>,
      trace = []\<rparr>"

definition demo_rulesets :: "RuleSet list" where
  "demo_rulesets =
     [\<lparr>sources = [''range'', ''webhook''],
       rules = [\<lparr>name = ''r1'', actions = [\<lparr>action = ''debug'', action_args = ''msg''\<rparr>]\<rparr>]\<rparr>,
      \<lparr>sources = [''kafka''], rules = []\<rparr>]"

definition default_startup_args :: StartupArgs where
  "default_startup_args =
     \<lparr>rulesets = [], variables = [], env_vars = [], inventory = None, project_data_file = None,
      controller_url = None, controller_token = None, controller_ssl_verify = None,
      controller_username = None, controller_password = None,
      check_controller_connection = False, check_vault = True\<rparr>"

definition cancelled :: result where
  "cancelled =
     Raised \<lparr>type_name = ''CancelledError'', str_value = [], traceback = None,
             instance_of_Exception = False, instance_of_CancelledError = True\<rparr>"

definition demo_world :: world where
  "demo_world =
     \<lparr>os_path_exists = (\<lambda>p. p = ''rules.yml'' \<or> p = ''inventory.yml''),
      str_strip = (\<lambda>t. rev (dropWhile (\<lambda>c. c = CHR '' '') (rev (dropWhile (\<lambda>c. c = CHR '' '') t)))),
      str_repr = (\<lambda>t. CHR 0x27 # t @ [CHR 0x27]),
      request_workload = (\<lambda>i. None),
      StartupArgs_new = default_startup_args,
      read_vars_file = (\<lambda>f. Inr []),
      parse_rulebook_file = (\<lambda>f vars. Inr (False, demo_rulesets)),
      has_rulebook = (\<lambda>f. Inr False),
      collection_load_rulebook = (\<lambda>f. Inl ''no such collection''),
      decryptable = (\<lambda>v. Inr ()),
      decryptable_dict = (\<lambda>d. Inr ()),
      decrypted_context = (\<lambda>d. Inr d),
      substitute_variables = (\<lambda>e d. Inr e),
      validate_url = (\<lambda>u kind. u = Some ''https://controller.example''),
      get_config = (\<lambda>r. Inr ''4.4''),
      max_feedback_timeout = 5,
      run_rulesets = (\<lambda>file_monitor. Inr False),
      task_result = (\<lambda>t. cancelled)\<rparr>"

definition demo_args :: parsed_args where
  "demo_args =
     \<lparr>arg_worker = False, arg_websocket_url = Some ''ws://feedback.example'', arg_id = None,
      arg_vars = None, arg_env_vars = None, arg_rulebook = Some ''rules.yml'',
      arg_hot_reload = True, arg_inventory = Some ''inventory.yml'',
      arg_project_tarball = None, arg_controller_url = None, arg_controller_token = None,
      arg_controller_ssl_verify = None, arg_controller_username = None,
      arg_controller_password = None, arg_source_dir = None, arg_shutdown_delay = 60\<rparr>"

definition rule_with :: "string list \<Rightarrow> RuleSet list" where
  "rule_with kinds =
     [\<lparr>sources = [''range''],
       rules = [\<lparr>name = ''r1'', actions = map (\<lambda>k. \<lparr>action = k, action_args = ''{}''\<rparr>) kinds\<rparr>]\<rparr>]"

section \<open>What spawn_sources builds\<close>

text \<open>
  The description that \<^verbatim>\<open>spawn_sources\<close> is compared with. For each rule set in turn,
  \<open>spawn_trace\<close> lists one new queue of capacity 1 followed by one new task per source
  of the rule set, each task a \<^verbatim>\<open>start_source\<close> on that queue; \<open>nq\<close> and \<open>nt\<close> are the
  numbers of queues and tasks that exist before. \<open>group_coroutines\<close> are the coroutines
  for the sources of one rule set paired with its queue.
\<close>

fun spawn_trace ::
  "RuleSet list \<Rightarrow> string option list \<Rightarrow> pydict \<Rightarrow> real \<Rightarrow> nat \<Rightarrow> nat \<Rightarrow> event list" where
  "spawn_trace [] source_dirs vars shutdown_delay nq nt = []"
| "spawn_trace (ruleset # rest) source_dirs vars shutdown_delay nq nt =
     New_queue nq 1 #
     map (\<lambda>(t, source). Create_task t (Start_source source source_dirs vars nq shutdown_delay))
       (enumerate nt (sources ruleset)) @
     spawn_trace rest source_dirs vars shutdown_delay (Suc nq) (nt + length (sources ruleset))"

definition group_coroutines ::
  "string option list \<Rightarrow> pydict \<Rightarrow> real \<Rightarrow> RuleSetQueue \<Rightarrow> coroutine list" where
  "group_coroutines source_dirs vars shutdown_delay rq =
     map (\<lambda>source. Start_source source source_dirs vars (snd rq) shutdown_delay) (sources (fst rq))"

lemma upt_add_Suc: "[n ..< Suc (n + k)] = n # [Suc n ..< Suc (n + k)]"
  by (simp add: upt_conv_Cons)

lemma spawn_ruleset_sources_eq:
  "spawn_ruleset_sources srcs dirs vars q d ts s =
     (ts @ [length (tasks s) ..< length (tasks s) + length srcs],
      s\<lparr>tasks := tasks s @ map (\<lambda>source. Start_source source dirs vars q d) srcs,
        trace := trace s @ map (\<lambda>(t, source). Create_task t (Start_source source dirs vars q d))
                   (enumerate (length (tasks s)) srcs)\<rparr>)"
proof (induction srcs arbitrary: ts s)
  case Nil
  then show ?case by simp
next
  case (Cons a srcs)
  show ?case
    by (simp add: Cons.IH create_task_def upt_add_Suc del: upt_Suc)
qed

lemma spawn_rulesets_eq:
  "spawn_rulesets rss vars dirs d ts rqs s = ((ts', rqs'), s') \<Longrightarrow>
     rqs' = rqs @ zip rss [length (queues s) ..< length (queues s) + length rss]
     \<and> queues s' = queues s @ replicate (length rss) 1
     \<and> ts' = ts @ [length (tasks s) ..< length (tasks s) + sum_list (map (\<lambda>r. length (sources r)) rss)]
     \<and> tasks s' = tasks s @ concat (map (group_coroutines dirs vars d)
          (zip rss [length (queues s) ..< length (queues s) + length rss]))
     \<and> trace s' = trace s @ spawn_trace rss dirs vars d (length (queues s)) (length (tasks s))
     \<and> os_environ s' = os_environ s \<and> runner s' = runner s"
proof (induction rss arbitrary: ts rqs s)
  case Nil
  then show ?case by simp
next
  case (Cons r rss)
  let ?s1 = "snd (asyncio_Queue 1 s)"
  let ?s2 = "snd (spawn_ruleset_sources (sources r) dirs vars (length (queues s)) d ts ?s1)"
  from Cons.prems have step:
    "spawn_rulesets rss vars dirs d
       (ts @ [length (tasks s) ..< length (tasks s) + length (sources r)])
       (rqs @ [(r, length (queues s))]) ?s2 = ((ts', rqs'), s')"
    by (simp add: asyncio_Queue_def spawn_ruleset_sources_eq)
  have q2: "queues ?s2 = queues s @ [1]"
    and t2: "tasks ?s2 =
      tasks s @ map (\<lambda>source. Start_source source dirs vars (length (queues s)) d) (sources r)"
    and tr2: "trace ?s2 =
      trace s @ New_queue (length (queues s)) 1 #
        map (\<lambda>(t, source). Create_task t (Start_source source dirs vars (length (queues s)) d))
          (enumerate (length (tasks s)) (sources r))"
    and e2: "os_environ ?s2 = os_environ s" "runner ?s2 = runner s"
    by (simp_all add: asyncio_Queue_def spawn_ruleset_sources_eq)
  note IH = Cons.IH [OF step, unfolded q2 t2 tr2 e2]
  have upt2: "[length (tasks s) ..< length (tasks s) + (length (sources r) + n)]
     = [length (tasks s) ..< length (tasks s) + length (sources r)] @
       [length (tasks s) + length (sources r) ..< length (tasks s) + length (sources r) + n]" for n
    by (metis add.assoc le_add1 upt_add_eq_append)
  show ?case using IH
    by (simp add: upt_add_Suc upt2 group_coroutines_def replicate_app_Cons_same add.assoc
          del: upt_Suc)
qed

text \<open>
  C1. Whatever the list of rule sets and the state, \<^verbatim>\<open>spawn_sources\<close> returns one pair
  per rule set, in order, each with a queue of its own that did not exist before; it
  makes exactly these queues, all of capacity 1; it returns one task per source
  declaration over all rule sets, none of which existed before; the task of a source
  runs \<^verbatim>\<open>start_source\<close> on the queue paired with the rule set of the source; and the
  queue of a rule set is made before the tasks of its sources.
\<close>

theorem spawn_sources_one_queue_per_ruleset:
  "spawn_sources rss vars source_dirs shutdown_delay s = ((ts, ruleset_queues), s') \<Longrightarrow>
     map fst ruleset_queues = rss
     \<and> map snd ruleset_queues = [length (queues s) ..< length (queues s) + length rss]
     \<and> queues s' = queues s @ replicate (length rss) 1
     \<and> ts = [length (tasks s) ..<
              length (tasks s) + sum_list (map (\<lambda>r. length (sources r)) rss)]
     \<and> tasks s' =
         tasks s @ concat (map (group_coroutines source_dirs vars shutdown_delay) ruleset_queues)
     \<and> trace s' =
         trace s @ spawn_trace rss source_dirs vars shutdown_delay (length (queues s))
                     (length (tasks s))"
  unfolding spawn_sources_def
  by (drule spawn_rulesets_eq) simp

theorem spawn_sources_one_queue_per_ruleset_witness:
  "spawn_sources demo_rulesets [] [None] 0 initial_state =
     (([0, 1, 2], zip demo_rulesets [0, 1]),
      initial_state
        \<lparr>queues := [1, 1],
         tasks := [Start_source ''range'' [None] [] 0 0, Start_source ''webhook'' [None] [] 0 0,
                   Start_source ''kafka'' [None] [] 1 0],
         trace := [New_queue 0 1,
                   Create_task 0 (Start_source ''range'' [None] [] 0 0),
                   Create_task 1 (Start_source ''webhook'' [None] [] 0 0),
                   New_queue 1 1,
                   Create_task 2 (Start_source ''kafka'' [None] [] 1 0)]\<rparr>)"
  using spawn_sources_one_queue_per_ruleset
    [of demo_rulesets "[]" "[None]" 0 initial_state
        "fst (fst (spawn_sources demo_rulesets [] [None] 0 initial_state))"
        "snd (fst (spawn_sources demo_rulesets [] [None] 0 initial_state))"
        "snd (spawn_sources demo_rulesets [] [None] 0 initial_state)"]
  by (simp add: spawn_sources_def demo_rulesets_def initial_state_def asyncio_Queue_def
        create_task_def)

section \<open>What validate_actions raises\<close>

definition action_passes :: "world \<Rightarrow> StartupArgs \<Rightarrow> Rule \<times> Action \<Rightarrow> bool" where
  "action_passes w startup_args ra = (\<not> isl (validate_action w (fst ra) startup_args (snd ra)))"

fun validate_pairs :: "world \<Rightarrow> (Rule \<times> Action) list \<Rightarrow> StartupArgs \<Rightarrow> exc + StartupArgs" where
  "validate_pairs w [] startup_args = Inr startup_args"
| "validate_pairs w ((rule, a) # rest) startup_args =
     bind_exc (validate_action w rule startup_args a) (validate_pairs w rest)"

lemma validate_pairs_append:
  "validate_pairs w (ps @ qs) sa = bind_exc (validate_pairs w ps sa) (validate_pairs w qs)"
  by (induction ps arbitrary: sa) (auto simp: bind_exc_def split: sum.splits)

lemma validate_rule_actions_pairs:
  "validate_rule_actions w rule as sa = validate_pairs w (map (Pair rule) as) sa"
  by (induction as arbitrary: sa) (auto simp: bind_exc_def split: sum.splits)

lemma validate_rules_pairs:
  "validate_rules w rs sa = validate_pairs w (concat (map rule_actions rs)) sa"
  by (induction rs arbitrary: sa)
     (auto simp: bind_exc_def validate_pairs_append validate_rule_actions_pairs rule_actions_def
           split: sum.splits)

lemma validate_rulesets_pairs:
  "validate_rulesets w rss sa = validate_pairs w (all_actions rss) sa"
  by (induction rss arbitrary: sa)
     (auto simp: bind_exc_def validate_pairs_append validate_rules_pairs all_actions_def split: sum.splits)

lemma validate_actions_pairs:
  "validate_actions w sa = validate_pairs w (all_actions (rulesets sa)) sa"
  by (simp add: validate_actions_def validate_rulesets_pairs)

lemma validate_action_flag:
  "validate_action w rule (sa\<lparr>check_controller_connection := b\<rparr>) a =
     (case validate_action w rule sa a of
        Inl e \<Rightarrow> Inl e
      | Inr sa' \<Rightarrow> Inr (sa\<lparr>check_controller_connection := b \<or> action a \<in> set CONTROLLER_ACTIONS\<rparr>))"
  by (simp add: validate_action_def bind_exc_def raise_if_def Let_def split: sum.splits)

lemma validate_pairs_flag_pass:
  "list_all (action_passes w sa) ps \<Longrightarrow>
     validate_pairs w ps (sa\<lparr>check_controller_connection := b\<rparr>) =
       Inr (sa\<lparr>check_controller_connection := b \<or> list_ex (\<lambda>ra. action (snd ra) \<in> set CONTROLLER_ACTIONS) ps\<rparr>)"
proof (induction ps arbitrary: b)
  case Nil
  then show ?case by simp
next
  case (Cons ra ps)
  obtain rule a where ra: "ra = (rule, a)" by (cases ra)
  from Cons.prems obtain sa' where ok: "validate_action w rule sa a = Inr sa'"
    by (cases "validate_action w rule sa a") (auto simp: action_passes_def ra)
  from Cons.prems have rest: "list_all (action_passes w sa) ps" by simp
  show ?case
    by (simp add: ra validate_action_flag ok bind_exc_def Cons.IH [OF rest])
qed

lemma validate_pairs_flag_fail:
  "list_all (action_passes w sa) pre \<Longrightarrow> validate_action w rule sa a = Inl e \<Longrightarrow>
     validate_pairs w (pre @ (rule, a) # post) (sa\<lparr>check_controller_connection := b\<rparr>) = Inl e"
  by (simp add: validate_pairs_append validate_pairs_flag_pass bind_exc_def validate_action_flag)

lemma validate_pairs_flag_Inl:
  "validate_pairs w ps (sa\<lparr>check_controller_connection := b\<rparr>) = Inl e \<Longrightarrow>
     \<exists>ra \<in> set ps. validate_action w (fst ra) sa (snd ra) = Inl e"
proof (induction ps arbitrary: b)
  case Nil
  then show ?case by simp
next
  case (Cons ra ps)
  obtain rule a where ra: "ra = (rule, a)" by (cases ra)
  show ?case
  proof (cases "validate_action w rule sa a")
    case (Inl e')
    with Cons.prems show ?thesis by (simp add: ra validate_action_flag bind_exc_def)
  next
    case (Inr sa')
    with Cons.prems have
      "validate_pairs w ps (sa\<lparr>check_controller_connection := b \<or> action a \<in> set CONTROLLER_ACTIONS\<rparr>) = Inl e"
      by (simp add: ra validate_action_flag bind_exc_def)
    from Cons.IH [OF this] show ?thesis by simp
  qed
qed

lemma validate_pairs_flag_isl:
  "ra \<in> set ps \<Longrightarrow> \<not> action_passes w sa ra \<Longrightarrow>
     isl (validate_pairs w ps (sa\<lparr>check_controller_connection := b\<rparr>))"
proof (induction ps arbitrary: b)
  case Nil
  then show ?case by simp
next
  case (Cons x ps)
  obtain rule a where x: "x = (rule, a)" by (cases x)
  show ?case
  proof (cases "validate_action w rule sa a")
    case (Inl e')
    then show ?thesis by (simp add: x validate_action_flag bind_exc_def)
  next
    case (Inr sa')
    with Cons.prems have "ra \<in> set ps" by (auto simp: action_passes_def x)
    from Cons.IH [OF this Cons.prems(2)] show ?thesis
      by (simp add: x validate_action_flag bind_exc_def Inr)
  qed
qed

lemma validate_action_inventory_needed:
  "action a \<in> set INVENTORY_ACTIONS \<Longrightarrow> \<not> truthy (inventory sa) \<Longrightarrow>
     validate_action w rule sa a =
       Inl (InventoryNeededException
              (''Rule '' @ name rule @ '' has an action '' @ action a @
               '' which needs inventory to be defined''))"
  by (simp add: validate_action_def bind_exc_def raise_if_def Let_def)

lemma validate_action_inventory_not_found:
  "action a \<in> set INVENTORY_ACTIONS \<Longrightarrow> inventory sa = Some p \<Longrightarrow> p \<noteq> [] \<Longrightarrow>
   \<not> os_path_exists w p \<Longrightarrow>
     validate_action w rule sa a = Inl (InventoryNotFound (''Inventory '' @ p @ '' not found''))"
  by (simp add: validate_action_def bind_exc_def raise_if_def Let_def truthy_def path_exists_def
        str_of_def)

lemma validate_action_controller_needed:
  "action a \<in> set CONTROLLER_ACTIONS \<Longrightarrow> \<not> truthy (controller_url sa) \<Longrightarrow>
   \<not> truthy (controller_token sa) \<Longrightarrow>
     validate_action w rule sa a =
       Inl (ControllerNeededException
              (''Rule '' @ name rule @ '' has an action '' @ action a @
               '' which needs controller url and token to be defined''))"
  by (auto simp add: validate_action_def bind_exc_def raise_if_def Let_def
        CONTROLLER_ACTIONS_def INVENTORY_ACTIONS_def)

lemma validate_action_ControllerNeeded:
  "validate_action w rule sa a = Inl (ControllerNeededException m) \<Longrightarrow>
     action a \<in> set CONTROLLER_ACTIONS \<and> \<not> truthy (controller_url sa)
     \<and> \<not> truthy (controller_token sa)"
  by (auto simp add: validate_action_def bind_exc_def raise_if_def Let_def collaborator_def
        path_exists_def split: if_splits sum.splits option.splits)

lemma validate_pairs_first_failure:
  assumes "\<not> list_all (action_passes w sa) pre"
  shows "\<exists>pre' rule' a' post' e.
           pre = pre' @ (rule', a') # post' \<and> list_all (action_passes w sa) pre'
           \<and> validate_action w rule' sa a' = Inl e
           \<and> validate_pairs w (pre @ rest) (sa\<lparr>check_controller_connection := b\<rparr>) = Inl e"
proof -
  from assms have "\<exists>x \<in> set pre. \<not> action_passes w sa x"
    by (simp add: list_all_iff)
  from split_list_first_prop [OF this] obtain ys x zs where
    pre: "pre = ys @ x # zs" and x: "\<not> action_passes w sa x"
    and ys: "\<forall>y \<in> set ys. \<not> \<not> action_passes w sa y"
    by blast
  obtain rule' a' where ra: "x = (rule', a')" by (cases x)
  from x obtain e where e: "validate_action w rule' sa a' = Inl e"
    by (cases "validate_action w rule' sa a'") (auto simp: action_passes_def ra)
  from ys have pass: "list_all (action_passes w sa) ys"
    by (simp add: list_all_iff)
  from validate_pairs_flag_fail [OF pass e, of "zs @ rest" b]
  have "validate_pairs w (pre @ rest) (sa\<lparr>check_controller_connection := b\<rparr>) = Inl e"
    by (simp add: pre ra)
  with pre ra pass e show ?thesis by blast
qed

text \<open>
  C7, as amended. Let some action \<open>a\<close> of some rule be one of \<^verbatim>\<open>INVENTORY_ACTIONS\<close>,
  with \<open>pre\<close> the actions that \<^verbatim>\<open>validate_actions\<close> visits before it. If no inventory
  is configured, \<^verbatim>\<open>validate_actions\<close> raises; and when every action of \<open>pre\<close> passes
  its own checks, what it raises is \<^verbatim>\<open>InventoryNeededException\<close>, with the message for
  \<open>a\<close>. If an inventory is configured and its path does not exist, \<^verbatim>\<open>validate_actions\<close>
  raises; and when every action of \<open>pre\<close> passes, what it raises is
  \<^verbatim>\<open>InventoryNotFound\<close>. When some action of \<open>pre\<close> does not pass its own checks,
  \<^verbatim>\<open>validate_actions\<close> raises what the first such action raises on its own. The
  counterexample has \<^verbatim>\<open>run_job_template\<close> before \<^verbatim>\<open>run_playbook\<close>, no inventory and
  no controller, and raises \<^verbatim>\<open>ControllerNeededException\<close>.
\<close>

theorem validate_actions_inventory:
  assumes "all_actions (rulesets startup_args) = pre @ (rule, a) # post"
    and "action a \<in> set INVENTORY_ACTIONS"
  shows "(\<not> truthy (inventory startup_args) \<longrightarrow>
            isl (validate_actions w startup_args) \<and>
            (list_all (action_passes w startup_args) pre \<longrightarrow>
               validate_actions w startup_args =
                 Inl (InventoryNeededException
                        (''Rule '' @ name rule @ '' has an action '' @ action a @
                         '' which needs inventory to be defined''))))
       \<and> (\<forall>p. inventory startup_args = Some p \<and> p \<noteq> [] \<and> \<not> os_path_exists w p \<longrightarrow>
            isl (validate_actions w startup_args) \<and>
            (list_all (action_passes w startup_args) pre \<longrightarrow>
               validate_actions w startup_args =
                 Inl (InventoryNotFound (''Inventory '' @ p @ '' not found''))))
       \<and> (\<not> list_all (action_passes w startup_args) pre \<longrightarrow>
            (\<exists>pre' rule' a' post' e.
               pre = pre' @ (rule', a') # post'
               \<and> list_all (action_passes w startup_args) pre'
               \<and> validate_action w rule' startup_args a' = Inl e
               \<and> validate_actions w startup_args = Inl e))"
proof -
  let ?ps = "all_actions (rulesets startup_args)"
  have mem: "(rule, a) \<in> set ?ps" by (simp add: assms(1))
  have fails: "isl (validate_actions w startup_args)"
    if "validate_action w rule startup_args a = Inl e" for e
  proof -
    from that have "\<not> action_passes w startup_args (rule, a)" by (simp add: action_passes_def)
    from validate_pairs_flag_isl [OF mem this, of "check_controller_connection startup_args"]
    show ?thesis by (simp add: validate_actions_pairs)
  qed
  have first: "validate_actions w startup_args = Inl e"
    if "validate_action w rule startup_args a = Inl e"
      and "list_all (action_passes w startup_args) pre" for e
    using validate_pairs_flag_fail
      [of w startup_args pre rule a e post "check_controller_connection startup_args"] that
    by (simp add: validate_actions_pairs assms(1))
  have own: "(\<not> truthy (inventory startup_args) \<longrightarrow>
            isl (validate_actions w startup_args) \<and>
            (list_all (action_passes w startup_args) pre \<longrightarrow>
               validate_actions w startup_args =
                 Inl (InventoryNeededException
                        (''Rule '' @ name rule @ '' has an action '' @ action a @
                         '' which needs inventory to be defined''))))
       \<and> (\<forall>p. inventory startup_args = Some p \<and> p \<noteq> [] \<and> \<not> os_path_exists w p \<longrightarrow>
            isl (validate_actions w startup_args) \<and>
            (list_all (action_passes w startup_args) pre \<longrightarrow>
               validate_actions w startup_args =
                 Inl (InventoryNotFound (''Inventory '' @ p @ '' not found''))))"
    using validate_action_inventory_needed [OF assms(2), of startup_args w rule]
      validate_action_inventory_not_found [OF assms(2), of startup_args _ w rule]
      fails first
    by blast
  have earlier: "\<exists>pre' rule' a' post' e.
               pre = pre' @ (rule', a') # post'
               \<and> list_all (action_passes w startup_args) pre'
               \<and> validate_action w rule' startup_args a' = Inl e
               \<and> validate_actions w startup_args = Inl e"
    if "\<not> list_all (action_passes w startup_args) pre"
    using validate_pairs_first_failure
      [OF that, of "(rule, a) # post" "check_controller_connection startup_args"]
    by (simp add: validate_actions_pairs assms(1))
  from own earlier show ?thesis by blast
qed

theorem validate_actions_inventory_witness:
  "validate_actions demo_world
     (default_startup_args\<lparr>rulesets := rule_with [''debug'', ''run_playbook'']\<rparr>) =
     Inl (InventoryNeededException
            ''Rule r1 has an action run_playbook which needs inventory to be defined'')
   \<and> validate_actions demo_world
     (default_startup_args\<lparr>rulesets := rule_with [''debug'', ''run_module''],
                            inventory := Some ''missing.yml''\<rparr>) =
     Inl (InventoryNotFound ''Inventory missing.yml not found'')"
  using validate_actions_inventory
    [of "default_startup_args\<lparr>rulesets := rule_with [''debug'', ''run_playbook'']\<rparr>"
        "[(\<lparr>name = ''r1'', actions = map (\<lambda>k. \<lparr>action = k, action_args = ''{}''\<rparr>) [''debug'', ''run_playbook'']\<rparr>, \<lparr>action = ''debug'', action_args = ''{}''\<rparr>)]"
        "\<lparr>name = ''r1'', actions = map (\<lambda>k. \<lparr>action = k, action_args = ''{}''\<rparr>) [''debug'', ''run_playbook'']\<rparr>"
        "\<lparr>action = ''run_playbook'', action_args = ''{}''\<rparr>" "[]" demo_world]
    validate_actions_inventory
    [of "default_startup_args\<lparr>rulesets := rule_with [''debug'', ''run_module''],
                            inventory := Some ''missing.yml''\<rparr>"
        "[(\<lparr>name = ''r1'', actions = map (\<lambda>k. \<lparr>action = k, action_args = ''{}''\<rparr>) [''debug'', ''run_module'']\<rparr>, \<lparr>action = ''debug'', action_args = ''{}''\<rparr>)]"
        "\<lparr>name = ''r1'', actions = map (\<lambda>k. \<lparr>action = k, action_args = ''{}''\<rparr>) [''debug'', ''run_module'']\<rparr>"
        "\<lparr>action = ''run_module'', action_args = ''{}''\<rparr>" "[]" demo_world]
  by (simp add: default_startup_args_def rule_with_def demo_world_def all_actions_def
        rule_actions_def INVENTORY_ACTIONS_def CONTROLLER_ACTIONS_def truthy_def action_passes_def
        validate_action_def bind_exc_def raise_if_def collaborator_def)

theorem validate_actions_inventory_counterexample:
  "map (action \<circ> snd) (all_actions (rule_with [''run_job_template'', ''run_playbook''])) =
     [''run_job_template'', ''run_playbook'']
   \<and> ''run_playbook'' \<in> set INVENTORY_ACTIONS
   \<and> inventory (default_startup_args
        \<lparr>rulesets := rule_with [''run_job_template'', ''run_playbook'']\<rparr>) = None
   \<and> validate_actions demo_world
        (default_startup_args\<lparr>rulesets := rule_with [''run_job_template'', ''run_playbook'']\<rparr>) =
      Inl (ControllerNeededException
             (''Rule r1 has an action run_job_template '' @
              ''which needs controller url and token to be defined''))"
  by (simp add: default_startup_args_def rule_with_def demo_world_def all_actions_def
        rule_actions_def INVENTORY_ACTIONS_def CONTROLLER_ACTIONS_def truthy_def
        validate_actions_def validate_action_def bind_exc_def raise_if_def collaborator_def)

text \<open>
  C8, as amended. \<^verbatim>\<open>validate_actions\<close> raises \<^verbatim>\<open>ControllerNeededException\<close> only if
  some action is one of \<^verbatim>\<open>CONTROLLER_ACTIONS\<close> and neither a controller URL nor a
  controller token is configured, so either of the two alone is enough to pass the check.
  Conversely, when an action \<open>a\<close> is one of \<^verbatim>\<open>CONTROLLER_ACTIONS\<close> and neither is
  configured, \<^verbatim>\<open>validate_actions\<close> raises; when every action visited before \<open>a\<close>
  passes its own checks, what it raises is \<^verbatim>\<open>ControllerNeededException\<close>, with the
  message for \<open>a\<close>; and when some action visited before \<open>a\<close> does not pass its own
  checks, it raises what the first such action raises on its own. The counterexample has
  \<^verbatim>\<open>run_playbook\<close> before \<^verbatim>\<open>run_job_template\<close>, no inventory and no controller, and
  raises \<^verbatim>\<open>InventoryNeededException\<close>.
\<close>

theorem validate_actions_controller:
  "((\<exists>m. validate_actions w startup_args = Inl (ControllerNeededException m)) \<longrightarrow>
      list_ex (\<lambda>ra. action (snd ra) \<in> set CONTROLLER_ACTIONS) (all_actions (rulesets startup_args))
      \<and> \<not> truthy (controller_url startup_args) \<and> \<not> truthy (controller_token startup_args))
   \<and> (all_actions (rulesets startup_args) = pre @ (rule, a) # post
        \<and> action a \<in> set CONTROLLER_ACTIONS
        \<and> \<not> truthy (controller_url startup_args) \<and> \<not> truthy (controller_token startup_args) \<longrightarrow>
      isl (validate_actions w startup_args) \<and>
      (list_all (action_passes w startup_args) pre \<longrightarrow>
         validate_actions w startup_args =
           Inl (ControllerNeededException
                  (''Rule '' @ name rule @ '' has an action '' @ action a @
                   '' which needs controller url and token to be defined''))) \<and>
      (\<not> list_all (action_passes w startup_args) pre \<longrightarrow>
         (\<exists>pre' rule' a' post' e.
            pre = pre' @ (rule', a') # post'
            \<and> list_all (action_passes w startup_args) pre'
            \<and> validate_action w rule' startup_args a' = Inl e
            \<and> validate_actions w startup_args = Inl e)))"
proof -
  have only_if: "list_ex (\<lambda>ra. action (snd ra) \<in> set CONTROLLER_ACTIONS)
        (all_actions (rulesets startup_args))
      \<and> \<not> truthy (controller_url startup_args) \<and> \<not> truthy (controller_token startup_args)"
    if "\<exists>m. validate_actions w startup_args = Inl (ControllerNeededException m)"
  proof -
    from that obtain m where
      "validate_pairs w (all_actions (rulesets startup_args))
         (startup_args\<lparr>check_controller_connection := check_controller_connection startup_args\<rparr>) =
       Inl (ControllerNeededException m)"
      by (auto simp: validate_actions_pairs)
    from validate_pairs_flag_Inl [OF this] obtain ra where
      ra: "ra \<in> set (all_actions (rulesets startup_args))"
        "validate_action w (fst ra) startup_args (snd ra) = Inl (ControllerNeededException m)"
      by blast
    from validate_action_ControllerNeeded [OF ra(2)] ra(1) show ?thesis
      by (auto simp: list_ex_iff)
  qed
  have "if": "isl (validate_actions w startup_args) \<and>
      (list_all (action_passes w startup_args) pre \<longrightarrow>
         validate_actions w startup_args =
           Inl (ControllerNeededException
                  (''Rule '' @ name rule @ '' has an action '' @ action a @
                   '' which needs controller url and token to be defined''))) \<and>
      (\<not> list_all (action_passes w startup_args) pre \<longrightarrow>
         (\<exists>pre' rule' a' post' e.
            pre = pre' @ (rule', a') # post'
            \<and> list_all (action_passes w startup_args) pre'
            \<and> validate_action w rule' startup_args a' = Inl e
            \<and> validate_actions w startup_args = Inl e))"
    if h: "all_actions (rulesets startup_args) = pre @ (rule, a) # post
        \<and> action a \<in> set CONTROLLER_ACTIONS
        \<and> \<not> truthy (controller_url startup_args) \<and> \<not> truthy (controller_token startup_args)"
  proof -
    from h have va: "validate_action w rule startup_args a =
         Inl (ControllerNeededException
                (''Rule '' @ name rule @ '' has an action '' @ action a @
                 '' which needs controller url and token to be defined''))"
      by (simp add: validate_action_controller_needed)
    have mem: "(rule, a) \<in> set (all_actions (rulesets startup_args))" using h by simp
    from va have "\<not> action_passes w startup_args (rule, a)" by (simp add: action_passes_def)
    from validate_pairs_flag_isl [OF mem this, of "check_controller_connection startup_args"]
    have 1: "isl (validate_actions w startup_args)" by (simp add: validate_actions_pairs)
    have 2: "validate_actions w startup_args =
             Inl (ControllerNeededException
                    (''Rule '' @ name rule @ '' has an action '' @ action a @
                     '' which needs controller url and token to be defined''))"
      if "list_all (action_passes w startup_args) pre"
      using validate_pairs_flag_fail
        [of w startup_args pre rule a _ post "check_controller_connection startup_args"] va h that
      by (simp add: validate_actions_pairs)
    have 3: "\<exists>pre' rule' a' post' e.
            pre = pre' @ (rule', a') # post'
            \<and> list_all (action_passes w startup_args) pre'
            \<and> validate_action w rule' startup_args a' = Inl e
            \<and> validate_actions w startup_args = Inl e"
      if "\<not> list_all (action_passes w startup_args) pre"
      using validate_pairs_first_failure
        [OF that, of "(rule, a) # post" "check_controller_connection startup_args"] h
      by (simp add: validate_actions_pairs)
    from 1 2 3 show ?thesis by blast
  qed
  from only_if "if" show ?thesis by blast
qed

theorem validate_actions_controller_witness:
  "validate_actions demo_world
     (default_startup_args\<lparr>rulesets := rule_with [''debug'', ''run_job_template'']\<rparr>) =
     Inl (ControllerNeededException
            ''Rule r1 has an action run_job_template which needs controller url and token to be defined'')"
  using validate_actions_controller
    [of demo_world "default_startup_args\<lparr>rulesets := rule_with [''debug'', ''run_job_template'']\<rparr>"
        "[(\<lparr>name = ''r1'', actions = map (\<lambda>k. \<lparr>action = k, action_args = ''{}''\<rparr>) [''debug'', ''run_job_template'']\<rparr>, \<lparr>action = ''debug'', action_args = ''{}''\<rparr>)]"
        "\<lparr>name = ''r1'', actions = map (\<lambda>k. \<lparr>action = k, action_args = ''{}''\<rparr>) [''debug'', ''run_job_template'']\<rparr>"
        "\<lparr>action = ''run_job_template'', action_args = ''{}''\<rparr>" "[]"]
  by (simp add: default_startup_args_def rule_with_def demo_world_def all_actions_def
        rule_actions_def INVENTORY_ACTIONS_def CONTROLLER_ACTIONS_def truthy_def action_passes_def
        validate_action_def bind_exc_def raise_if_def collaborator_def)

theorem validate_actions_controller_counterexample:
  "map (action \<circ> snd) (all_actions (rule_with [''run_playbook'', ''run_job_template''])) =
     [''run_playbook'', ''run_job_template'']
   \<and> ''run_job_template'' \<in> set CONTROLLER_ACTIONS
   \<and> controller_url (default_startup_args
        \<lparr>rulesets := rule_with [''run_playbook'', ''run_job_template'']\<rparr>) = None
   \<and> controller_token (default_startup_args
        \<lparr>rulesets := rule_with [''run_playbook'', ''run_job_template'']\<rparr>) = None
   \<and> validate_actions demo_world
        (default_startup_args\<lparr>rulesets := rule_with [''run_playbook'', ''run_job_template'']\<rparr>) =
      Inl (InventoryNeededException
             ''Rule r1 has an action run_playbook which needs inventory to be defined'')"
  by (simp add: default_startup_args_def rule_with_def demo_world_def all_actions_def
        rule_actions_def INVENTORY_ACTIONS_def CONTROLLER_ACTIONS_def truthy_def
        validate_actions_def validate_action_def bind_exc_def raise_if_def collaborator_def)

section \<open>The trace of one pass through run\<close>

text \<open>
  \<open>startup_event\<close> holds of the events that loading and validation produce. A
  computation \<open>emits P\<close> when it only adds events that satisfy \<open>P\<close> to the trace and
  makes neither a task nor a queue.
\<close>

fun startup_event :: "event \<Rightarrow> bool" where
  "startup_event (Logger level msg) = True"
| "startup_event Startup_logging = True"
| "startup_event (Request_workload i) = True"
| "startup_event Validate_actions = True"
| "startup_event Validate_variables = True"
| "startup_event Decrypted_context = True"
| "startup_event Substitute_variables = True"
| "startup_event (Setenv k v) = True"
| "startup_event (Validate_url u kind) = True"
| "startup_event Get_config = True"
| "startup_event e = False"

definition emits :: "(event \<Rightarrow> bool) \<Rightarrow> 'a comp \<Rightarrow> bool" where
  "emits P m =
     (\<forall>s. \<exists>tr. trace (snd (m s)) = trace s @ tr \<and> list_all P tr
                \<and> tasks (snd (m s)) = tasks s \<and> queues (snd (m s)) = queues s)"

lemma emits_returns [intro!]: "emits P (returns x)"
  by (simp add: emits_def returns_def)

lemma emits_raise [intro!]: "emits P (raise e)"
  by (simp add: emits_def raise_def)

lemma emits_lift_exc [intro!]: "emits P (lift_exc r)"
  by (simp add: emits_def lift_exc_def)

lemma emits_read [intro!]: "emits P (\<lambda>s. (f s, s))"
  by (simp add: emits_def)

lemma emits_emit [intro!]: "P e \<Longrightarrow> emits P (emit e)"
  by (simp add: emits_def emit_def)

lemma emits_logger [intro!]: "P (Logger level msg) \<Longrightarrow> emits P (logger level msg)"
  by (simp add: logger_def emits_emit)

lemma emits_set_runner [intro!]: "emits P (set_runner f)"
  by (simp add: emits_def set_runner_def)

lemma emits_setenv [intro!]: "P (Setenv k v) \<Longrightarrow> emits P (setenv k v)"
  by (simp add: emits_def setenv_def split: option.splits)

lemma emits_bind [intro!]:
  assumes "emits P m" and "\<And>x. emits P (f x)"
  shows "emits P (bind_st m f)"
  unfolding emits_def
proof
  fix s
  from assms(1) obtain tr1 where m: "trace (snd (m s)) = trace s @ tr1" "list_all P tr1"
    "tasks (snd (m s)) = tasks s" "queues (snd (m s)) = queues s"
    unfolding emits_def by blast
  show "\<exists>tr. trace (snd (bind_st m f s)) = trace s @ tr \<and> list_all P tr
          \<and> tasks (snd (bind_st m f s)) = tasks s \<and> queues (snd (bind_st m f s)) = queues s"
  proof (cases "m s")
    case (Pair r s1)
    show ?thesis
    proof (cases r)
      case (Inl e)
      with Pair m show ?thesis by (auto simp: bind_st_def)
    next
      case (Inr x)
      from assms(2) [of x] obtain tr2 where f: "trace (snd (f x s1)) = trace s1 @ tr2"
        "list_all P tr2" "tasks (snd (f x s1)) = tasks s1" "queues (snd (f x s1)) = queues s1"
        unfolding emits_def by blast
      with Pair Inr m show ?thesis by (auto simp: bind_st_def)
    qed
  qed
qed

lemma emits_if [intro!]: "(c \<Longrightarrow> emits P m) \<Longrightarrow> (\<not> c \<Longrightarrow> emits P n) \<Longrightarrow> emits P (if c then m else n)"
  by simp

lemma emits_case_option [intro!]:
  "(v = None \<Longrightarrow> emits P m) \<Longrightarrow> (\<And>x. v = Some x \<Longrightarrow> emits P (f x)) \<Longrightarrow>
     emits P (case v of None \<Rightarrow> m | Some x \<Rightarrow> f x)"
  by (cases v) simp_all

lemma emits_case_prod [intro!]:
  "(\<And>a b. p = (a, b) \<Longrightarrow> emits P (f a b)) \<Longrightarrow> emits P (case p of (a, b) \<Rightarrow> f a b)"
  by (cases p) simp

lemma emits_export_env: "(\<And>k v. P (Setenv k v)) \<Longrightarrow> emits P (export_env kvs)"
  by (induction kvs) auto

lemma emits_load_vars: "emits P (load_vars w pa)"
  unfolding load_vars_def by auto

lemma emits_run_load: "emits startup_event (run_load w pa)"
  unfolding run_load_def by (auto intro: emits_load_vars)

lemma emits_validate_controller_params: "emits startup_event (validate_controller_params w sa)"
  unfolding validate_controller_params_def call_get_config_def by auto

lemma emits_run_validate: "emits startup_event (run_validate w sa)"
  unfolding run_validate_def
  by (auto intro: emits_validate_controller_params emits_export_env)

definition failure :: "result \<Rightarrow> bool" where
  "failure r = (isinstance_Exception r \<and> \<not> isinstance_CancelledError r)"

definition frame_line :: "frame \<Rightarrow> event" where
  "frame_line f = Logger ''error'' (filename f @ '':'' @ lineno f @ '' '' @ frame_name f)"

definition exception_log :: "exception_object \<Rightarrow> event list" where
  "exception_log x =
     Logger ''error'' (type_name x @ '': '' @ str_value x) #
     (case traceback x of None \<Rightarrow> [] | Some frames \<Rightarrow> map frame_line (rev frames))"

fun result_log :: "result \<Rightarrow> event list" where
  "result_log (Returned v) = []"
| "result_log (Raised x) = (if failure (Raised x) then exception_log x else [])"

definition shutdown_trace :: "world \<Rightarrow> event_log \<Rightarrow> nat option \<Rightarrow> nat list \<Rightarrow> event list" where
  "shutdown_trace w event_log feedback_task ts =
     Put event_log [(''type'', ''Exit'')] #
     (case feedback_task of None \<Rightarrow> [] | Some t \<Rightarrow> [Wait [t] (max_feedback_timeout w)]) @
     Logger ''info'' ''Cancelling event source tasks'' #
     map Cancel ts @
     Gather ts #
     concat (map (\<lambda>t. result_log (task_result w t)) ts) @
     [Logger ''info'' ''Main complete'', Close_session]"

lemma cancel_all_eq: "cancel_all ts s = (Inr (), s\<lparr>trace := trace s @ map Cancel ts\<rparr>)"
  by (induction ts arbitrary: s) (simp_all add: returns_def bind_st_def emit_def)

lemma log_frames_eq: "log_frames fs s = (Inr (), s\<lparr>trace := trace s @ map frame_line fs\<rparr>)"
  by (induction fs arbitrary: s)
     (simp_all add: returns_def bind_st_def emit_def logger_def frame_line_def)

lemma log_exception_without_data_eq:
  "log_exception_without_data x s = (Inr (), s\<lparr>trace := trace s @ exception_log x\<rparr>)"
  by (simp add: log_exception_without_data_def exception_log_def returns_def bind_st_def emit_def
        logger_def log_frames_eq split: option.splits)

lemma classify_results_eq:
  "classify_results rs b s =
     (Inr (b \<or> list_ex failure rs), s\<lparr>trace := trace s @ concat (map result_log rs)\<rparr>)"
proof (induction rs b arbitrary: s rule: classify_results.induct)
  case (1 error_found)
  then show ?case by (simp add: returns_def)
next
  case (2 v rest error_found)
  then show ?case by (simp add: failure_def)
next
  case (3 x rest error_found)
  then show ?case
    by (auto simp add: failure_def bind_st_def log_exception_without_data_eq)
qed

lemma run_shutdown_eq:
  "run_shutdown w event_log feedback_task ts s =
     (Inr (list_ex (\<lambda>t. failure (task_result w t)) ts),
      s\<lparr>trace := trace s @ shutdown_trace w event_log feedback_task ts\<rparr>)"
  by (simp add: run_shutdown_def shutdown_trace_def bind_st_def emit_def logger_def returns_def
        gather_def cancel_all_eq classify_results_eq list_ex_iff comp_def split: option.splits)

definition total_sources :: "RuleSet list \<Rightarrow> nat" where
  "total_sources rss = sum_list (map (\<lambda>r. length (sources r)) rss)"

definition ids :: "nat \<Rightarrow> nat \<Rightarrow> nat list" where
  "ids n k = [n ..< n + k]"

definition queues_for :: "RuleSet list \<Rightarrow> nat \<Rightarrow> RuleSetQueue list" where
  "queues_for rss nq = zip rss (ids nq (length rss))"

lemma ids_snoc: "ids n k @ [n + k] = ids n (Suc k)"
  by (simp add: ids_def)

lemma spawn_sources_eq:
  "spawn_sources rss vars dirs d s =
     ((ids (length (tasks s)) (total_sources rss), queues_for rss (length (queues s))),
      s\<lparr>queues := queues s @ replicate (length rss) 1,
        tasks := tasks s @ concat (map (group_coroutines dirs vars d)
                   (queues_for rss (length (queues s)))),
        trace := trace s @ spawn_trace rss dirs vars d (length (queues s)) (length (tasks s))\<rparr>)"
proof -
  obtain ts rqs s' where r: "spawn_rulesets rss vars dirs d [] [] s = ((ts, rqs), s')"
    by (metis prod.exhaust)
  from spawn_rulesets_eq [OF r] show ?thesis
    by (simp add: spawn_sources_def total_sources_def r ids_def queues_for_def)
qed

lemma length_group_coroutines:
  "length (concat (map (group_coroutines dirs vars d) (queues_for rss n))) = total_sources rss"
proof (induction rss arbitrary: n)
  case Nil
  then show ?case by (simp add: total_sources_def queues_for_def)
next
  case (Cons r rss)
  from Cons.IH [of "Suc n"] show ?case
    by (simp add: total_sources_def group_coroutines_def queues_for_def ids_def upt_add_Suc
          del: upt_Suc)
qed

definition start_trace :: "parsed_args \<Rightarrow> StartupArgs \<Rightarrow> string option \<Rightarrow> nat \<Rightarrow> nat \<Rightarrow> event list" where
  "start_trace parsed_args startup_args file_monitor nq nt =
     (if truthy (arg_websocket_url parsed_args) then
        New_queue nq 0 #
        Logger ''info'' ''Starting sources'' #
        spawn_trace (rulesets startup_args) [arg_source_dir parsed_args] (variables startup_args)
          (arg_shutdown_delay parsed_args) (Suc nq) nt @
        [Logger ''info'' ''Starting rules'',
         Create_task (nt + total_sources (rulesets startup_args))
           (Send_event_log_to_websocket (Asyncio_Queue nq)),
         Run_rulesets (Asyncio_Queue nq) (queues_for (rulesets startup_args) (Suc nq)) file_monitor]
      else
        Logger ''info'' ''Starting sources'' #
        spawn_trace (rulesets startup_args) [arg_source_dir parsed_args] (variables startup_args)
          (arg_shutdown_delay parsed_args) nq nt @
        [Logger ''info'' ''Starting rules'',
         Run_rulesets NullQueue (queues_for (rulesets startup_args) nq) file_monitor])"

lemma run_start_eq:
  assumes "run_start w pa sa fm s = (r, s')"
  shows "trace s' = trace s @ start_trace pa sa fm (length (queues s)) (length (tasks s))
    \<and> length (tasks s') = length (tasks s) + total_sources (rulesets sa)
           + (if truthy (arg_websocket_url pa) then 1 else 0)
    \<and> (truthy (arg_websocket_url pa) \<longrightarrow>
           tasks s' ! (length (tasks s') - 1) =
             Send_event_log_to_websocket (Asyncio_Queue (length (queues s))))
    \<and> r = (case run_rulesets w fm of
                Inl msg \<Rightarrow> Inl (CollaboratorError msg)
              | Inr should_reload \<Rightarrow>
                  Inr (ids (length (tasks s)) (length (tasks s') - length (tasks s)),
                       if truthy (arg_websocket_url pa) then Asyncio_Queue (length (queues s))
                       else NullQueue,
                       if truthy (arg_websocket_url pa) then Some (length (tasks s') - 1) else None,
                       should_reload))"
proof (cases "truthy (arg_websocket_url pa)")
  case True
  with assms show ?thesis
    by (auto simp add: run_start_def bind_st_def returns_def lift_st_def logger_def emit_def
          asyncio_Queue_def create_task_def spawn_sources_eq call_run_rulesets_def lift_exc_def
          collaborator_def start_trace_def length_group_coroutines nth_append ids_snoc
          split: sum.splits)
next
  case False
  with assms show ?thesis
    by (auto simp add: run_start_def bind_st_def returns_def lift_st_def logger_def emit_def
          spawn_sources_eq call_run_rulesets_def lift_exc_def
          collaborator_def start_trace_def length_group_coroutines
          split: sum.splits)
qed

definition run_startup :: "world \<Rightarrow> parsed_args \<Rightarrow> (StartupArgs \<times> string option) comp" where
  "run_startup w parsed_args =
     bind_st (run_load w parsed_args) (\<lambda>(startup_args, file_monitor).
     bind_st (run_validate w startup_args) (\<lambda>startup_args1.
     returns (startup_args1, file_monitor)))"

lemma emits_run_startup: "emits startup_event (run_startup w pa)"
  unfolding run_startup_def by (auto intro: emits_run_load emits_run_validate)

lemma run_once_startup:
  "run_once w pa =
     bind_st (run_startup w pa) (\<lambda>(startup_args1, file_monitor).
     bind_st (run_start w pa startup_args1 file_monitor)
       (\<lambda>(ts, event_log, feedback_task, should_reload).
     bind_st (run_shutdown w event_log feedback_task ts) (\<lambda>error_found.
     returns (error_found, should_reload))))"
  by (rule ext)
     (simp add: run_once_def run_startup_def bind_st_def returns_def
        split: prod.splits sum.splits)

definition event_log_of :: "parsed_args \<Rightarrow> state \<Rightarrow> event_log" where
  "event_log_of parsed_args s =
     (if truthy (arg_websocket_url parsed_args) then Asyncio_Queue (length (queues s))
      else NullQueue)"

definition feedback_of :: "parsed_args \<Rightarrow> state \<Rightarrow> nat option" where
  "feedback_of parsed_args s' =
     (if truthy (arg_websocket_url parsed_args) then Some (length (tasks s') - 1) else None)"

lemmas demo_defs =
  demo_world_def demo_args_def initial_state_def demo_rulesets_def default_startup_args_def
  cancelled_def

lemmas run_defs =
  run_once_def run_load_def run_validate_def run_start_def run_shutdown_def
  load_vars_def load_rulebook_def validate_actions_def validate_action_def
  validate_variables_def validate_controller_params_def call_get_config_def set_runner_def
  spawn_sources_def asyncio_Queue_def create_task_def call_run_rulesets_def gather_def
  log_exception_without_data_def setenv_def putenv_error_def path_exists_def collaborator_def
  bind_st_def bind_exc_def returns_def raise_def raise_if_def lift_exc_def lift_st_def
  emit_def logger_def truthy_def str_of_def INVENTORY_ACTIONS_def CONTROLLER_ACTIONS_def

lemma demo_run_once:
  "run_once demo_world demo_args initial_state =
     (Inr (False, False),
      initial_state
        \<lparr>queues := [0, 1, 1],
         tasks := [Start_source ''range'' [None] [] 1 60, Start_source ''webhook'' [None] [] 1 60,
                   Start_source ''kafka'' [None] [] 2 60,
                   Send_event_log_to_websocket (Asyncio_Queue 0)],
         trace :=
           [Logger ''critical''
              ''HOT-RELOAD: Hot-reload was requested, will monitor for rulebook file changes'',
            Validate_actions, Validate_variables, Decrypted_context, Substitute_variables,
            New_queue 0 0, Logger ''info'' ''Starting sources'',
            New_queue 1 1,
            Create_task 0 (Start_source ''range'' [None] [] 1 60),
            Create_task 1 (Start_source ''webhook'' [None] [] 1 60),
            New_queue 2 1,
            Create_task 2 (Start_source ''kafka'' [None] [] 2 60),
            Logger ''info'' ''Starting rules'',
            Create_task 3 (Send_event_log_to_websocket (Asyncio_Queue 0)),
            Run_rulesets (Asyncio_Queue 0) (zip demo_rulesets [1, 2]) (Some ''rules.yml''),
            Put (Asyncio_Queue 0) [(''type'', ''Exit'')], Wait [3] 5,
            Logger ''info'' ''Cancelling event source tasks'',
            Cancel 0, Cancel 1, Cancel 2, Cancel 3, Gather [0, 1, 2, 3],
            Logger ''info'' ''Main complete'', Close_session]\<rparr>)"
  by (simp add: run_defs demo_defs)

fun start_event :: "event \<Rightarrow> bool" where
  "start_event (Logger level msg) = True"
| "start_event (New_queue q maxsize) = True"
| "start_event (Create_task t c) = True"
| "start_event e = False"

fun shutdown_event :: "event \<Rightarrow> bool" where
  "shutdown_event (Put event_log entry) = True"
| "shutdown_event (Wait ts timeout) = True"
| "shutdown_event (Cancel t) = True"
| "shutdown_event (Gather ts) = True"
| "shutdown_event Close_session = True"
| "shutdown_event e = False"

lemma ids_upt: "n \<le> m \<Longrightarrow> ids n (m - n) = [n ..< m]"
  by (simp add: ids_def)

lemma list_all_spawn_trace:
  "list_all start_event (spawn_trace rss dirs vars d nq nt)"
  by (induction rss arbitrary: nq nt) (auto simp: list_all_iff)

lemma start_trace_split:
  "\<exists>tr rqs. start_trace pa sa fm nq nt =
       tr @ [Run_rulesets (if truthy (arg_websocket_url pa) then Asyncio_Queue nq else NullQueue)
               rqs fm]
     \<and> list_all start_event tr"
proof (cases "truthy (arg_websocket_url pa)")
  case True
  show ?thesis
    by (rule exI [of _ "New_queue nq 0 # Logger ''info'' ''Starting sources'' #
          spawn_trace (rulesets sa) [arg_source_dir pa] (variables sa) (arg_shutdown_delay pa)
            (Suc nq) nt @
          [Logger ''info'' ''Starting rules'',
           Create_task (nt + total_sources (rulesets sa))
             (Send_event_log_to_websocket (Asyncio_Queue nq))]"],
        rule exI [of _ "queues_for (rulesets sa) (Suc nq)"])
       (simp add: start_trace_def True list_all_spawn_trace)
next
  case False
  show ?thesis
    by (rule exI [of _ "Logger ''info'' ''Starting sources'' #
          spawn_trace (rulesets sa) [arg_source_dir pa] (variables sa) (arg_shutdown_delay pa)
            nq nt @ [Logger ''info'' ''Starting rules'']"],
        rule exI [of _ "queues_for (rulesets sa) nq"])
       (simp add: start_trace_def False list_all_spawn_trace)
qed

lemma startup_not_shutdown: "startup_event e \<Longrightarrow> \<not> shutdown_event e"
  by (cases e) simp_all

lemma start_not_shutdown: "start_event e \<Longrightarrow> \<not> shutdown_event e"
  by (cases e) simp_all

lemma run_startup_emits:
  assumes "run_startup w pa s = (r, s1)"
  shows "\<exists>pre. list_all startup_event pre \<and> trace s1 = trace s @ pre
           \<and> tasks s1 = tasks s \<and> queues s1 = queues s"
  using emits_run_startup [of w pa] assms unfolding emits_def
  by (metis snd_conv)

lemma run_once_startup_fails:
  "run_startup w pa s = (Inl e, s1) \<Longrightarrow> run_once w pa s = (Inl e, s1)"
  by (simp add: run_once_startup bind_st_def)

lemma run_once_started:
  assumes st: "run_startup w pa s = (Inr (sa, fm), s1)"
    and r: "run_once w pa s = (r, s')"
  shows "length (tasks s') = length (tasks s1) + total_sources (rulesets sa)
               + (if truthy (arg_websocket_url pa) then 1 else 0)
     \<and> (truthy (arg_websocket_url pa) \<longrightarrow>
           tasks s' ! (length (tasks s') - 1) =
             Send_event_log_to_websocket (event_log_of pa s1))
     \<and> (case run_rulesets w fm of
           Inl msg \<Rightarrow>
             r = Inl (CollaboratorError msg)
             \<and> trace s' = trace s1 @
                  start_trace pa sa fm (length (queues s1)) (length (tasks s1))
         | Inr should_reload \<Rightarrow>
             r = Inr (list_ex (\<lambda>t. failure (task_result w t))
                        (ids (length (tasks s1)) (length (tasks s') - length (tasks s1))),
                      should_reload)
             \<and> trace s' = trace s1 @
                  start_trace pa sa fm (length (queues s1)) (length (tasks s1)) @
                  shutdown_trace w (event_log_of pa s1) (feedback_of pa s')
                    (ids (length (tasks s1)) (length (tasks s') - length (tasks s1))))"
proof -
  obtain r2 s2 where s2: "run_start w pa sa fm s1 = (r2, s2)"
    by (cases "run_start w pa sa fm s1")
  note F = run_start_eq [OF s2]
  show ?thesis
  proof (cases "run_rulesets w fm")
    case (Inl msg)
    with st r s2 F show ?thesis
      by (auto simp add: run_once_startup bind_st_def event_log_of_def)
  next
    case (Inr should_reload)
    with st r s2 F show ?thesis
      by (auto simp add: run_once_startup bind_st_def run_shutdown_eq returns_def
            event_log_of_def feedback_of_def)
  qed
qed

text \<open>The shape of a completed pass, from which the claims about shutdown follow.\<close>

lemma run_once_completed:
  assumes "run_once w pa s = (Inr (error_found, should_reload), s')"
  shows "\<exists>pre tr rqs fm.
      list_all startup_event pre \<and> list_all start_event tr
      \<and> trace s' = trace s @ pre @ tr @
          Run_rulesets (event_log_of pa s) rqs fm #
          shutdown_trace w (event_log_of pa s) (feedback_of pa s')
            [length (tasks s) ..< length (tasks s')]
      \<and> length (tasks s) \<le> length (tasks s')
      \<and> (truthy (arg_websocket_url pa) \<longrightarrow>
            length (tasks s) < length (tasks s')
            \<and> tasks s' ! (length (tasks s') - 1) =
                Send_event_log_to_websocket (event_log_of pa s))
      \<and> error_found =
          list_ex (\<lambda>t. failure (task_result w t)) [length (tasks s) ..< length (tasks s')]
      \<and> run_rulesets w fm = Inr should_reload
      \<and> (\<exists>sa s1. run_startup w pa s = (Inr (sa, fm), s1))"
proof -
  obtain r1 s1 where st: "run_startup w pa s = (r1, s1)" by (cases "run_startup w pa s")
  from run_startup_emits [OF st] obtain pre where pre: "list_all startup_event pre"
    "trace s1 = trace s @ pre" "tasks s1 = tasks s" "queues s1 = queues s"
    by blast
  from st assms obtain sa fm where r1: "r1 = Inr (sa, fm)"
    by (cases r1) (auto simp: run_once_startup_fails)
  note S = run_once_started [OF st [unfolded r1] assms]
  from S obtain reload where rr: "run_rulesets w fm = Inr reload"
    by (cases "run_rulesets w fm") auto
  have el: "event_log_of pa s1 = event_log_of pa s"
    by (simp add: event_log_of_def pre)
  from S have len: "length (tasks s) \<le> length (tasks s')"
    and len': "truthy (arg_websocket_url pa) \<longrightarrow> length (tasks s) < length (tasks s')"
    by (auto simp: pre)
  from start_trace_split [of pa sa fm "length (queues s)" "length (tasks s)"]
  obtain tr rqs where tr:
    "start_trace pa sa fm (length (queues s)) (length (tasks s)) =
       tr @ [Run_rulesets (event_log_of pa s) rqs fm]" "list_all start_event tr"
    by (auto simp: event_log_of_def)
  from S rr have
    ef: "error_found = list_ex (\<lambda>t. failure (task_result w t))
           (ids (length (tasks s1)) (length (tasks s') - length (tasks s1)))"
    and rl: "should_reload = reload"
    and tr': "trace s' = trace s1 @
                  start_trace pa sa fm (length (queues s1)) (length (tasks s1)) @
                  shutdown_trace w (event_log_of pa s1) (feedback_of pa s')
                    (ids (length (tasks s1)) (length (tasks s') - length (tasks s1)))"
    and fb: "truthy (arg_websocket_url pa) \<longrightarrow>
           tasks s' ! (length (tasks s') - 1) =
             Send_event_log_to_websocket (event_log_of pa s1)"
    by auto
  have A: "trace s' = trace s @ pre @ tr @
          Run_rulesets (event_log_of pa s) rqs fm #
          shutdown_trace w (event_log_of pa s) (feedback_of pa s')
            [length (tasks s) ..< length (tasks s')]"
    using tr' by (simp add: pre tr el ids_upt [OF len])
  have B: "error_found =
          list_ex (\<lambda>t. failure (task_result w t)) [length (tasks s) ..< length (tasks s')]"
    using ef by (simp add: pre ids_upt [OF len])
  have C: "truthy (arg_websocket_url pa) \<longrightarrow>
            length (tasks s) < length (tasks s')
            \<and> tasks s' ! (length (tasks s') - 1) =
                Send_event_log_to_websocket (event_log_of pa s)"
    using fb len' by (simp add: el)
  have D: "\<exists>sa s1. run_startup w pa s = (Inr (sa, fm), s1)"
    using st r1 by blast
  have E: "run_rulesets w fm = Inr should_reload"
    using rr rl by simp
  from pre(1) tr(2) A len C B E D show ?thesis
    by blast
qed

section \<open>Shutdown and the end of run\<close>

fun is_gather :: "event \<Rightarrow> bool" where
  "is_gather (Gather ts) = True"
| "is_gather e = False"

lemma result_log_logger: "list_all startup_event (result_log r)"
  by (cases r) (auto simp: exception_log_def frame_line_def list_all_iff split: option.splits)

lemma result_logs_logger: "list_all startup_event (concat (map (\<lambda>t. result_log (task_result w t)) ts))"
  using result_log_logger by (induction ts) (auto simp: list_all_iff)

definition crashed :: result where
  "crashed =
     Raised \<lparr>type_name = ''ConnectionError'', str_value = ''connection refused'',
             traceback = Some [\<lparr>filename = ''websocket.py'', lineno = ''42'',
                                frame_name = ''send''\<rparr>],
             instance_of_Exception = True, instance_of_CancelledError = False\<rparr>"

definition failing_world :: world where
  "failing_world = demo_world\<lparr>task_result := (\<lambda>t. if t = 3 then crashed else cancelled)\<rparr>"

definition reloading_world :: world where
  "reloading_world = demo_world\<lparr>run_rulesets := (\<lambda>file_monitor. Inr True)\<rparr>"

lemma failing_run_once:
  "run_once failing_world demo_args initial_state =
     (Inr (True, False),
      initial_state
        \<lparr>queues := [0, 1, 1],
         tasks := [Start_source ''range'' [None] [] 1 60, Start_source ''webhook'' [None] [] 1 60,
                   Start_source ''kafka'' [None] [] 2 60,
                   Send_event_log_to_websocket (Asyncio_Queue 0)],
         trace :=
           [Logger ''critical''
              ''HOT-RELOAD: Hot-reload was requested, will monitor for rulebook file changes'',
            Validate_actions, Validate_variables, Decrypted_context, Substitute_variables,
            New_queue 0 0, Logger ''info'' ''Starting sources'',
            New_queue 1 1,
            Create_task 0 (Start_source ''range'' [None] [] 1 60),
            Create_task 1 (Start_source ''webhook'' [None] [] 1 60),
            New_queue 2 1,
            Create_task 2 (Start_source ''kafka'' [None] [] 2 60),
            Logger ''info'' ''Starting rules'',
            Create_task 3 (Send_event_log_to_websocket (Asyncio_Queue 0)),
            Run_rulesets (Asyncio_Queue 0) (zip demo_rulesets [1, 2]) (Some ''rules.yml''),
            Put (Asyncio_Queue 0) [(''type'', ''Exit'')], Wait [3] 5,
            Logger ''info'' ''Cancelling event source tasks'',
            Cancel 0, Cancel 1, Cancel 2, Cancel 3, Gather [0, 1, 2, 3],
            Logger ''error'' ''ConnectionError: connection refused'',
            Logger ''error'' ''websocket.py:42 send'',
            Logger ''info'' ''Main complete'', Close_session]\<rparr>)"
  by (simp add: run_defs demo_defs failing_world_def crashed_def)

text \<open>
  C3. When a pass through \<^verbatim>\<open>run\<close> gets past the rule engine, the part of its trace
  from the call of the rule engine on is, in this order: the call; the put of the
  \<^verbatim>\<open>Exit\<close> entry on the event log; if there is a web socket URL, and so a feedback
  task, one wait for that task with the configured timeout, after which the pass goes on
  whatever the wait gave; the cancellation of every task made in this pass, the sources
  and the feedback task, in the order they were made; one \<^verbatim>\<open>gather\<close> of the same tasks;
  the log lines for the failures; the release of the controller session. No put, wait,
  cancellation or \<^verbatim>\<open>gather\<close> happens outside that sequence.
\<close>

theorem shutdown_sequence:
  assumes "run_once w parsed_args s = (Inr (error_found, should_reload), s')"
  shows "\<exists>before rqs file_monitor logs.
      trace s' = trace s @ before @
        [Run_rulesets (event_log_of parsed_args s) rqs file_monitor,
         Put (event_log_of parsed_args s) [(''type'', ''Exit'')]] @
        (if truthy (arg_websocket_url parsed_args)
         then [Wait [length (tasks s') - 1] (max_feedback_timeout w)] else []) @
        Logger ''info'' ''Cancelling event source tasks'' #
        map Cancel [length (tasks s) ..< length (tasks s')] @
        Gather [length (tasks s) ..< length (tasks s')] #
        logs @ [Logger ''info'' ''Main complete'', Close_session]
      \<and> list_all (\<lambda>e. \<not> shutdown_event e) (before @ logs)
      \<and> (truthy (arg_websocket_url parsed_args) \<longrightarrow>
            length (tasks s) < length (tasks s')
            \<and> tasks s' ! (length (tasks s') - 1) =
                Send_event_log_to_websocket (event_log_of parsed_args s))"
proof -
  from run_once_completed [OF assms] obtain pre tr rqs fm where
    pre: "list_all startup_event pre" and tr: "list_all start_event tr"
    and t: "trace s' = trace s @ pre @ tr @
          Run_rulesets (event_log_of parsed_args s) rqs fm #
          shutdown_trace w (event_log_of parsed_args s) (feedback_of parsed_args s')
            [length (tasks s) ..< length (tasks s')]"
    and fb: "truthy (arg_websocket_url parsed_args) \<longrightarrow>
            length (tasks s) < length (tasks s')
            \<and> tasks s' ! (length (tasks s') - 1) =
                Send_event_log_to_websocket (event_log_of parsed_args s)"
    by blast
  let ?logs = "concat (map (\<lambda>t. result_log (task_result w t)) [length (tasks s) ..< length (tasks s')])"
  have a: "list_all (\<lambda>e. \<not> shutdown_event e) pre"
    using pre startup_not_shutdown by (auto simp: list_all_iff)
  have b: "list_all (\<lambda>e. \<not> shutdown_event e) tr"
    using tr start_not_shutdown by (auto simp: list_all_iff)
  have c: "list_all (\<lambda>e. \<not> shutdown_event e) ?logs"
    using result_logs_logger [of w "[length (tasks s) ..< length (tasks s')]"]
      startup_not_shutdown
    by (auto simp: list_all_iff)
  have quiet: "list_all (\<lambda>e. \<not> shutdown_event e) ((pre @ tr) @ ?logs)"
    using a b c by simp
  have "trace s' = trace s @ (pre @ tr) @
        [Run_rulesets (event_log_of parsed_args s) rqs fm,
         Put (event_log_of parsed_args s) [(''type'', ''Exit'')]] @
        (if truthy (arg_websocket_url parsed_args)
         then [Wait [length (tasks s') - 1] (max_feedback_timeout w)] else []) @
        Logger ''info'' ''Cancelling event source tasks'' #
        map Cancel [length (tasks s) ..< length (tasks s')] @
        Gather [length (tasks s) ..< length (tasks s')] #
        ?logs @ [Logger ''info'' ''Main complete'', Close_session]"
    by (simp add: t shutdown_trace_def feedback_of_def)
  with quiet fb show ?thesis by blast
qed

theorem shutdown_sequence_witness:
  "trace (snd (run_once demo_world demo_args initial_state)) =
     [Logger ''critical''
        ''HOT-RELOAD: Hot-reload was requested, will monitor for rulebook file changes'',
      Validate_actions, Validate_variables, Decrypted_context, Substitute_variables,
      New_queue 0 0, Logger ''info'' ''Starting sources'',
      New_queue 1 1,
      Create_task 0 (Start_source ''range'' [None] [] 1 60),
      Create_task 1 (Start_source ''webhook'' [None] [] 1 60),
      New_queue 2 1,
      Create_task 2 (Start_source ''kafka'' [None] [] 2 60),
      Logger ''info'' ''Starting rules'',
      Create_task 3 (Send_event_log_to_websocket (Asyncio_Queue 0)),
      Run_rulesets (Asyncio_Queue 0) (zip demo_rulesets [1, 2]) (Some ''rules.yml''),
      Put (Asyncio_Queue 0) [(''type'', ''Exit'')], Wait [3] 5,
      Logger ''info'' ''Cancelling event source tasks'',
      Cancel 0, Cancel 1, Cancel 2, Cancel 3, Gather [0, 1, 2, 3],
      Logger ''info'' ''Main complete'', Close_session]"
  using shutdown_sequence
    [of demo_world demo_args initial_state False False
        "snd (run_once demo_world demo_args initial_state)"]
  by (simp add: demo_run_once)

definition base_exception :: result where
  "base_exception =
     Raised \<lparr>type_name = ''GeneratorExit'', str_value = [], traceback = None,
             instance_of_Exception = False, instance_of_CancelledError = False\<rparr>"

definition base_exception_world :: world where
  "base_exception_world =
     demo_world\<lparr>task_result := (\<lambda>t. if t = 1 then base_exception else cancelled)\<rparr>"

text \<open>
  C2, as amended. When a pass through \<^verbatim>\<open>run\<close> gets past the rule engine, it makes
  exactly one \<^verbatim>\<open>gather\<close>, over all the tasks made in this pass, each listed once; the
  flag \<^verbatim>\<open>error_found\<close> is set exactly when the result of one of these tasks is an
  instance of \<^verbatim>\<open>Exception\<close> and not of \<^verbatim>\<open>CancelledError\<close>, whatever the other results
  are, so results that are cancellations never set it; and when it is set, \<^verbatim>\<open>run\<close>
  raises the one exception "One of the source plugins failed" in the state reached after
  the whole collection. A result that is an exception object but no instance of
  \<^verbatim>\<open>Exception\<close> does not set the flag: in the counterexample a source ends with a
  \<^verbatim>\<open>GeneratorExit\<close>, which is no cancellation, and \<^verbatim>\<open>run\<close> returns.
\<close>

theorem results_collected:
  assumes "run_once w parsed_args s = (Inr (error_found, should_reload), s')"
  shows "(\<exists>before after.
            trace s' = trace s @ before @ Gather [length (tasks s) ..< length (tasks s')] # after
            \<and> list_all (\<lambda>e. \<not> is_gather e) (before @ after))
       \<and> error_found =
           list_ex (\<lambda>t. isinstance_Exception (task_result w t)
                         \<and> \<not> isinstance_CancelledError (task_result w t))
             [length (tasks s) ..< length (tasks s')]
       \<and> (error_found \<longrightarrow>
            run (w # ws) parsed_args s =
              (Some (Inl (Exception ''One of the source plugins failed'')), s'))"
proof -
  from run_once_completed [OF assms] obtain pre tr rqs fm where
    pre: "list_all startup_event pre" and tr: "list_all start_event tr"
    and t: "trace s' = trace s @ pre @ tr @
          Run_rulesets (event_log_of parsed_args s) rqs fm #
          shutdown_trace w (event_log_of parsed_args s) (feedback_of parsed_args s')
            [length (tasks s) ..< length (tasks s')]"
    and ef: "error_found =
          list_ex (\<lambda>t. failure (task_result w t)) [length (tasks s) ..< length (tasks s')]"
    by blast
  let ?ts = "[length (tasks s) ..< length (tasks s')]"
  let ?before = "pre @ tr @
    Run_rulesets (event_log_of parsed_args s) rqs fm #
    Put (event_log_of parsed_args s) [(''type'', ''Exit'')] #
    (case feedback_of parsed_args s' of None \<Rightarrow> [] | Some t \<Rightarrow> [Wait [t] (max_feedback_timeout w)]) @
    Logger ''info'' ''Cancelling event source tasks'' # map Cancel ?ts"
  let ?after = "concat (map (\<lambda>t. result_log (task_result w t)) ?ts) @
    [Logger ''info'' ''Main complete'', Close_session]"
  have startup_ng: "startup_event e \<Longrightarrow> \<not> is_gather e" for e by (cases e) simp_all
  have start_ng: "start_event e \<Longrightarrow> \<not> is_gather e" for e by (cases e) simp_all
  have 1: "trace s' = trace s @ ?before @ Gather ?ts # ?after"
    by (simp add: t shutdown_trace_def)
  have a: "list_all (\<lambda>e. \<not> is_gather e) pre"
    using pre startup_ng by (auto simp: list_all_iff)
  have b: "list_all (\<lambda>e. \<not> is_gather e) tr"
    using tr start_ng by (auto simp: list_all_iff)
  have c: "list_all (\<lambda>e. \<not> is_gather e) (concat (map (\<lambda>t. result_log (task_result w t)) ?ts))"
    using result_logs_logger [of w ?ts] startup_ng by (auto simp: list_all_iff)
  have 2: "list_all (\<lambda>e. \<not> is_gather e) (?before @ ?after)"
    using a b c by (auto simp add: list_all_iff split: option.splits)
  have 3: "error_found \<longrightarrow>
            run (w # ws) parsed_args s =
              (Some (Inl (Exception ''One of the source plugins failed'')), s')"
    by (simp add: assms)
  from 1 2 3 ef show ?thesis
    unfolding failure_def by blast
qed

theorem results_collected_witness:
  "run [failing_world] demo_args initial_state =
     (Some (Inl (Exception ''One of the source plugins failed'')),
      snd (run_once failing_world demo_args initial_state))
   \<and> map (task_result failing_world) [0, 1, 2, 3] = [cancelled, cancelled, cancelled, crashed]"
  using results_collected
    [of failing_world demo_args initial_state True False
        "snd (run_once failing_world demo_args initial_state)" "[]"]
  by (simp add: failing_run_once) (simp add: failing_world_def)

theorem results_collected_counterexample:
  "map (task_result base_exception_world) [0, 1, 2, 3] =
     [cancelled, base_exception, cancelled, cancelled]
   \<and> \<not> isinstance_CancelledError base_exception
   \<and> fst (run [base_exception_world] demo_args initial_state) = Some (Inr ())"
  by (simp add: run_defs demo_defs base_exception_world_def base_exception_def)

text \<open>
  C5. When a pass through \<^verbatim>\<open>run\<close> gets past the rule engine, its last event is the
  release of the controller session, and then: if \<^verbatim>\<open>error_found\<close> is set, \<^verbatim>\<open>run\<close>
  raises "One of the source plugins failed", also when the rule engine asked for a reload;
  otherwise, if the rule engine asked for a reload, \<^verbatim>\<open>run\<close> logs the restart and is
  what \<^verbatim>\<open>run\<close> with the same \<^verbatim>\<open>parsed_args\<close> is in the next world, from its first
  line on; otherwise \<^verbatim>\<open>run\<close> returns.
\<close>

theorem end_of_run_precedence:
  assumes "run_once w parsed_args s = (Inr (error_found, should_reload), s')"
  shows "last (trace s') = Close_session
    \<and> (\<exists>file_monitor. run_rulesets w file_monitor = Inr should_reload)
    \<and> (error_found \<longrightarrow>
          run (w # ws) parsed_args s =
            (Some (Inl (Exception ''One of the source plugins failed'')), s'))
    \<and> (\<not> error_found \<and> should_reload \<longrightarrow>
          run (w # ws) parsed_args s =
            run ws parsed_args
              (s'\<lparr>trace := trace s' @
                 [Logger ''critical'' ''HOT-RELOAD! rules file changed, now restarting'']\<rparr>))
    \<and> (\<not> error_found \<and> \<not> should_reload \<longrightarrow>
          run (w # ws) parsed_args s = (Some (Inr ()), s'))"
proof -
  from run_once_completed [OF assms] obtain pre tr rqs fm where
    t: "trace s' = trace s @ pre @ tr @
          Run_rulesets (event_log_of parsed_args s) rqs fm #
          shutdown_trace w (event_log_of parsed_args s) (feedback_of parsed_args s')
            [length (tasks s) ..< length (tasks s')]"
    and rr: "run_rulesets w fm = Inr should_reload"
    by blast
  have "last (trace s') = Close_session"
    by (simp add: t shutdown_trace_def)
  with rr show ?thesis
    by (auto simp add: assms logger_def emit_def)
qed

theorem end_of_run_precedence_witness:
  "fst (run [reloading_world, demo_world] demo_args initial_state) = Some (Inr ())
   \<and> fst (run [reloading_world] demo_args initial_state) = None
   \<and> fst (run [failing_world\<lparr>run_rulesets := (\<lambda>file_monitor. Inr True)\<rparr>, demo_world]
             demo_args initial_state) =
       Some (Inl (Exception ''One of the source plugins failed''))"
  using end_of_run_precedence
    [of reloading_world demo_args initial_state False True
        "snd (run_once reloading_world demo_args initial_state)" "[demo_world]"]
  by (simp add: run_defs demo_defs failing_world_def reloading_world_def crashed_def)



section \<open>The file to monitor\<close>

definition worker_mode :: "parsed_args \<Rightarrow> bool" where
  "worker_mode parsed_args =
     (arg_worker parsed_args \<and> truthy (arg_websocket_url parsed_args)
      \<and> truthy (arg_id parsed_args))"

lemma run_load_file_monitor:
  "run_load w pa s = (Inr (sa, fm), s1) \<Longrightarrow>
     fm = (if \<not> worker_mode pa \<and> arg_hot_reload pa
              \<and> (\<exists>p. arg_rulebook pa = Some p \<and> os_path_exists w p)
           then arg_rulebook pa else None)"
  by (auto simp add: run_load_def worker_mode_def bind_st_def returns_def raise_def lift_exc_def
        emit_def logger_def path_exists_def
        split: if_splits option.splits sum.splits prod.splits)

lemma run_startup_file_monitor:
  "run_startup w pa s = (Inr (sa, fm), s1) \<Longrightarrow> \<exists>sa0 s0. run_load w pa s = (Inr (sa0, fm), s0)"
  by (auto simp add: run_startup_def bind_st_def returns_def split: prod.splits sum.splits)

fun is_run_rulesets :: "event \<Rightarrow> bool" where
  "is_run_rulesets (Run_rulesets el rqs fm) = True"
| "is_run_rulesets e = False"

lemma startup_not_driver: "startup_event e \<Longrightarrow> \<not> is_run_rulesets e"
  by (cases e) simp_all

lemma shutdown_trace_no_driver: "list_all (\<lambda>e. \<not> is_run_rulesets e) (shutdown_trace w el fb ts)"
proof -
  have "list_all (\<lambda>e. \<not> is_run_rulesets e) (concat (map (\<lambda>t. result_log (task_result w t)) ts))"
    using result_logs_logger [of w ts] startup_not_driver
    by (auto simp: list_all_iff)
  then show ?thesis
    by (auto simp add: shutdown_trace_def list_all_iff split: option.splits)
qed

text \<open>
  C10. Whatever call of the rule engine a pass through \<^verbatim>\<open>run\<close> makes, the file to
  monitor that it passes is the rule book exactly when the pass is not in worker mode,
  the hot-reload flag is set and the rule book path exists on disk when \<^verbatim>\<open>run\<close> checks
  it; in every other case it passes \<^verbatim>\<open>None\<close>. What the rule engine does with the
  argument is outside \<^verbatim>\<open>app.py\<close>.
\<close>

theorem file_monitor_armed:
  assumes "run_once w parsed_args s = (r, s')"
    and "Run_rulesets event_log ruleset_queues file_monitor
           \<in> set (drop (length (trace s)) (trace s'))"
  shows "file_monitor =
           (if \<not> worker_mode parsed_args \<and> arg_hot_reload parsed_args
               \<and> (\<exists>p. arg_rulebook parsed_args = Some p \<and> os_path_exists w p)
            then arg_rulebook parsed_args else None)"
proof -
  obtain r1 s1 where st: "run_startup w parsed_args s = (r1, s1)"
    by (cases "run_startup w parsed_args s")
  from run_startup_emits [OF st] obtain pre where pre: "list_all startup_event pre"
    "trace s1 = trace s @ pre" "tasks s1 = tasks s" "queues s1 = queues s"
    by blast
  have not_pre: "Run_rulesets event_log ruleset_queues file_monitor \<notin> set pre"
    using pre(1) by (auto simp: list_all_iff)
  show ?thesis
  proof (cases r1)
    case (Inl e)
    from run_once_startup_fails [OF st [unfolded Inl]] assms(1) have "s' = s1" by simp
    with assms(2) pre not_pre show ?thesis by simp
  next
    case (Inr x)
    obtain sa fm where x: "x = (sa, fm)" by (cases x)
    note st' = st [unfolded Inr x]
    note S = run_once_started [OF st' assms(1)]
    from start_trace_split [of parsed_args sa fm "length (queues s)" "length (tasks s)"]
    obtain tr rqs where tr:
      "start_trace parsed_args sa fm (length (queues s)) (length (tasks s)) =
         tr @ [Run_rulesets (if truthy (arg_websocket_url parsed_args)
                             then Asyncio_Queue (length (queues s)) else NullQueue) rqs fm]"
      "list_all start_event tr"
      by blast
    have not_tr: "Run_rulesets event_log ruleset_queues file_monitor \<notin> set tr"
      using tr(2) by (auto simp: list_all_iff)
    have not_sd: "Run_rulesets event_log ruleset_queues file_monitor
        \<notin> set (shutdown_trace w el fb ts)" for el fb ts
      using shutdown_trace_no_driver [of w el fb ts] by (auto simp: list_all_iff)
    have "file_monitor = fm"
    proof (cases "run_rulesets w fm")
      case (Inl msg)
      with S have "trace s' = trace s @ pre @ tr @
          [Run_rulesets (if truthy (arg_websocket_url parsed_args)
                             then Asyncio_Queue (length (queues s)) else NullQueue) rqs fm]"
        by (simp add: pre tr)
      with assms(2) not_pre not_tr show ?thesis by auto
    next
      case (Inr reload)
      with S have "trace s' = trace s @ pre @ tr @
          [Run_rulesets (if truthy (arg_websocket_url parsed_args)
                             then Asyncio_Queue (length (queues s)) else NullQueue) rqs fm] @
          shutdown_trace w (event_log_of parsed_args s1) (feedback_of parsed_args s')
                    (ids (length (tasks s1)) (length (tasks s') - length (tasks s1)))"
        by (simp add: pre tr)
      with assms(2) not_pre not_tr not_sd show ?thesis by auto
    qed
    moreover from run_startup_file_monitor [OF st'] run_load_file_monitor
    have "fm = (if \<not> worker_mode parsed_args \<and> arg_hot_reload parsed_args
               \<and> (\<exists>p. arg_rulebook parsed_args = Some p \<and> os_path_exists w p)
            then arg_rulebook parsed_args else None)"
      by blast
    ultimately show ?thesis by simp
  qed
qed

theorem file_monitor_armed_witness:
  "Run_rulesets (Asyncio_Queue 0) (zip demo_rulesets [1, 2]) (Some ''rules.yml'')
     \<in> set (trace (snd (run_once demo_world demo_args initial_state)))
   \<and> \<not> worker_mode demo_args \<and> arg_hot_reload demo_args
   \<and> os_path_exists demo_world ''rules.yml''"
  using file_monitor_armed
    [of demo_world demo_args initial_state "fst (run_once demo_world demo_args initial_state)"
        "snd (run_once demo_world demo_args initial_state)"
        "Asyncio_Queue 0" "zip demo_rulesets [1, 2]" "Some ''rules.yml''"]
  by (simp add: demo_run_once) (simp add: demo_defs worker_mode_def truthy_def)

section \<open>Start-up validation\<close>

fun validation_event :: "event \<Rightarrow> bool" where
  "validation_event Validate_actions = True"
| "validation_event Validate_variables = True"
| "validation_event Decrypted_context = True"
| "validation_event Substitute_variables = True"
| "validation_event (Setenv k v) = True"
| "validation_event (Validate_url u kind) = True"
| "validation_event Get_config = True"
| "validation_event e = False"

fun task_event :: "event \<Rightarrow> bool" where
  "task_event (Create_task t c) = True"
| "task_event (New_queue q maxsize) = True"
| "task_event e = False"

text \<open>An environment that \<^verbatim>\<open>os.environ\<close> accepts, name by name.\<close>

definition env_legal :: "pydict \<Rightarrow> bool" where
  "env_legal kvs = list_all (\<lambda>kv. putenv_error (fst kv) (snd kv) = None) kvs"

lemma export_env_legal:
  "env_legal kvs \<Longrightarrow>
     export_env kvs s =
       (Inr (), s\<lparr>os_environ := fold (\<lambda>(k, v). AList.update k v) kvs (os_environ s),
                  trace := trace s @ map (\<lambda>(k, v). Setenv k v) kvs\<rparr>)"
proof (induction kvs arbitrary: s)
  case Nil
  then show ?case by (simp add: returns_def)
next
  case (Cons kv kvs)
  obtain k v where kv: "kv = (k, v)" by (cases kv)
  from Cons.prems have "putenv_error k v = None" "env_legal kvs"
    by (simp_all add: env_legal_def kv)
  then show ?case by (simp add: kv bind_st_def setenv_def Cons.IH)
qed

lemma export_env_illegal: "\<not> env_legal kvs \<Longrightarrow> isl (fst (export_env kvs s))"
proof (induction kvs arbitrary: s)
  case Nil
  then show ?case by (simp add: env_legal_def)
next
  case (Cons kv kvs)
  obtain k v where kv: "kv = (k, v)" by (cases kv)
  show ?case
  proof (cases "putenv_error k v")
    case None
    with Cons.prems have "\<not> env_legal kvs" by (simp add: env_legal_def kv)
    from Cons.IH [OF this] None show ?thesis
      by (simp add: kv bind_st_def setenv_def)
  next
    case (Some e)
    then show ?thesis by (simp add: kv bind_st_def setenv_def)
  qed
qed

text \<open>
  The fields of \<^verbatim>\<open>job_template_runner\<close> after \<^verbatim>\<open>validate_controller_params\<close> has set
  them from \<^verbatim>\<open>startup_args\<close>.
\<close>

definition configured_runner :: "StartupArgs \<Rightarrow> job_template_runner \<Rightarrow> job_template_runner" where
  "configured_runner startup_args r =
     (let r1 = r\<lparr>host := controller_url startup_args, token := controller_token startup_args\<rparr>;
          r2 = (if truthy (controller_ssl_verify startup_args)
                then r1\<lparr>verify_ssl := controller_ssl_verify startup_args\<rparr> else r1)
      in if truthy (controller_username startup_args) \<and> truthy (controller_password startup_args)
         then r2\<lparr>username := controller_username startup_args,
                 password := controller_password startup_args\<rparr>
         else r2)"

definition probe_trace :: "world \<Rightarrow> StartupArgs \<Rightarrow> job_template_runner \<Rightarrow> event list" where
  "probe_trace w startup_args r =
     Validate_url (controller_url startup_args) ''controller'' #
     (if validate_url w (controller_url startup_args) ''controller''
      then Get_config #
           (case get_config w (configured_runner startup_args r) of
              Inl msg \<Rightarrow> []
            | Inr version \<Rightarrow> [Logger ''info'' (''AAP Version '' @ version)])
      else [])"

lemma validate_controller_params_eq:
  assumes "truthy (controller_url sa)"
  shows "validate_controller_params w sa s =
     (if \<not> validate_url w (controller_url sa) ''controller''
      then (Inl (InvalidUrlException ''Invalid controller url.''),
            s\<lparr>trace := trace s @ probe_trace w sa (runner s)\<rparr>)
      else (case get_config w (configured_runner sa (runner s)) of
              Inl msg \<Rightarrow> Inl (CollaboratorError msg)
            | Inr version \<Rightarrow> Inr (),
            s\<lparr>runner := configured_runner sa (runner s),
              trace := trace s @ probe_trace w sa (runner s)\<rparr>))"
  using assms
  by (simp add: validate_controller_params_def probe_trace_def configured_runner_def
        call_get_config_def set_runner_def bind_st_def returns_def raise_def emit_def logger_def
        collaborator_def Let_def split: sum.splits)

text \<open>
  \<^verbatim>\<open>startup_args\<close> once lines 121 to 124 have stored the decrypted variables and the
  substituted environment, and the events of lines 119 to 126 when nothing raises.
\<close>

definition validated_args :: "StartupArgs \<Rightarrow> pydict \<Rightarrow> pydict \<Rightarrow> StartupArgs" where
  "validated_args startup_args1 vars env = startup_args1\<lparr>variables := vars, env_vars := env\<rparr>"

definition validate_trace :: "pydict \<Rightarrow> event list" where
  "validate_trace env =
     [Validate_actions, Validate_variables, Decrypted_context, Substitute_variables] @
     map (\<lambda>(k, v). Setenv k v) env"

lemma run_validate_eq:
  assumes "validate_actions w sa = Inr sa1" and "validate_variables w sa1 = Inr ()"
    and "decrypted_context w (variables sa1) = Inr vars"
    and "substitute_variables w (env_vars sa1) vars = Inr env"
    and "env_legal env"
  shows "run_validate w sa s =
     (if check_controller_connection sa1
      then (case validate_controller_params w (validated_args sa1 vars env)
                   (s\<lparr>os_environ := fold (\<lambda>(k, v). AList.update k v) env (os_environ s),
                      trace := trace s @ validate_trace env\<rparr>) of
              (Inl e, s4) \<Rightarrow> (Inl e, s4)
            | (Inr u, s4) \<Rightarrow> (Inr (validated_args sa1 vars env), s4))
      else (Inr (validated_args sa1 vars env),
            s\<lparr>os_environ := fold (\<lambda>(k, v). AList.update k v) env (os_environ s),
              trace := trace s @ validate_trace env\<rparr>))"
  using assms
  by (simp add: run_validate_def validated_args_def validate_trace_def bind_st_def returns_def
        emit_def lift_exc_def collaborator_def export_env_legal split: prod.splits sum.splits)

lemma validate_actions_Inr:
  assumes "validate_actions w sa = Inr sa1"
  shows "sa1 = sa\<lparr>check_controller_connection :=
                    check_controller_connection sa
                    \<or> list_ex (\<lambda>ra. action (snd ra) \<in> set CONTROLLER_ACTIONS)
                         (all_actions (rulesets sa))\<rparr>"
proof -
  let ?ps = "all_actions (rulesets sa)"
  have eq: "validate_pairs w ?ps (sa\<lparr>check_controller_connection := check_controller_connection sa\<rparr>)
              = Inr sa1"
    using assms by (simp add: validate_actions_pairs)
  have "list_all (action_passes w sa) ?ps"
  proof (rule ccontr)
    assume "\<not> list_all (action_passes w sa) ?ps"
    then obtain ra where "ra \<in> set ?ps" "\<not> action_passes w sa ra"
      by (auto simp: list_all_iff)
    from validate_pairs_flag_isl [OF this, of "check_controller_connection sa"] eq
    show False by simp
  qed
  from validate_pairs_flag_pass [OF this, of "check_controller_connection sa"] eq
  show ?thesis by simp
qed

fun probe_event :: "event \<Rightarrow> bool" where
  "probe_event (Validate_url u kind) = True"
| "probe_event Get_config = True"
| "probe_event e = False"

definition controller_args :: "string option \<Rightarrow> StartupArgs" where
  "controller_args url =
     default_startup_args
       \<lparr>rulesets := rule_with [''run_job_template''], controller_url := url,
        controller_token := Some ''secret''\<rparr>"

definition unreachable_world :: world where
  "unreachable_world =
     demo_world
       \<lparr>parse_rulebook_file := (\<lambda>f vars. Inr (False, rule_with [''run_job_template''])),
        get_config := (\<lambda>r. Inl ''connection refused'')\<rparr>"

definition controller_cli_args :: parsed_args where
  "controller_cli_args =
     demo_args\<lparr>arg_controller_url := Some ''https://controller.example'',
               arg_controller_token := Some ''secret''\<rparr>"

definition illegal_env_world :: world where
  "illegal_env_world =
     demo_world\<lparr>substitute_variables := (\<lambda>e d. Inr [(''HOME'', ''/tmp''), (''A=B'', ''1'')])\<rparr>"

definition vaulted_vars_world :: world where
  "vaulted_vars_world = demo_world\<lparr>decryptable_dict := (\<lambda>d. Inl ''vaulted string in variables'')\<rparr>"

text \<open>
  C6, as amended. Let a controller URL be configured and let start-up reach the
  controller check: the validation of the actions and of the variables passes, the
  variables decrypt, and the environment is substituted and exported. The flag
  \<^verbatim>\<open>check_controller_connection\<close> is set after \<^verbatim>\<open>validate_actions\<close> exactly when it
  was set before or some rule action is one of \<^verbatim>\<open>CONTROLLER_ACTIONS\<close>. When it is set,
  start-up validates the URL as a controller URL and raises \<^verbatim>\<open>InvalidUrlException\<close> if
  it is not one; otherwise it fetches the remote configuration next, fails with the
  failure of the fetch if there is one, and logs the version it got. When the flag is
  not set, start-up neither validates the URL nor fetches the configuration: the
  counterexample runs to the end with a controller URL that is not valid and no
  controller action.
\<close>

theorem controller_url_checked:
  assumes "validate_actions w startup_args = Inr startup_args1"
    and "validate_variables w startup_args1 = Inr ()"
    and "decrypted_context w (variables startup_args1) = Inr vars"
    and "substitute_variables w (env_vars startup_args1) vars = Inr env"
    and "env_legal env"
    and "truthy (controller_url startup_args)"
    and "run_validate w startup_args s = (r, s')"
  shows "check_controller_connection startup_args1 =
           (check_controller_connection startup_args
            \<or> list_ex (\<lambda>ra. action (snd ra) \<in> set CONTROLLER_ACTIONS)
                 (all_actions (rulesets startup_args)))
    \<and> (check_controller_connection startup_args1 \<longrightarrow>
          trace s' = trace s @ validate_trace env @ probe_trace w startup_args (runner s)
          \<and> r = (if \<not> validate_url w (controller_url startup_args) ''controller''
                 then Inl (InvalidUrlException ''Invalid controller url.'')
                 else case get_config w (configured_runner startup_args (runner s)) of
                        Inl msg \<Rightarrow> Inl (CollaboratorError msg)
                      | Inr version \<Rightarrow> Inr (validated_args startup_args1 vars env)))
    \<and> (\<not> check_controller_connection startup_args1 \<longrightarrow>
          trace s' = trace s @ validate_trace env
          \<and> r = Inr (validated_args startup_args1 vars env))
    \<and> list_all (\<lambda>e. \<not> probe_event e) (validate_trace env)"
proof -
  note sa1 = validate_actions_Inr [OF assms(1)]
  let ?sa3 = "validated_args startup_args1 vars env"
  have fields:
    "controller_url ?sa3 = controller_url startup_args"
    "controller_token ?sa3 = controller_token startup_args"
    "controller_ssl_verify ?sa3 = controller_ssl_verify startup_args"
    "controller_username ?sa3 = controller_username startup_args"
    "controller_password ?sa3 = controller_password startup_args"
    by (subst sa1, simp add: validated_args_def)+
  note url = fields(1)
  have cr: "configured_runner ?sa3 = configured_runner startup_args"
    by (simp add: configured_runner_def fields fun_eq_iff Let_def cong: if_cong)
  have pt: "probe_trace w ?sa3 = probe_trace w startup_args"
    by (simp add: probe_trace_def cr fields fun_eq_iff cong: if_cong)
  have t: "truthy (controller_url ?sa3)"
    using assms(6) url by simp
  have 1: "check_controller_connection startup_args1 =
           (check_controller_connection startup_args
            \<or> list_ex (\<lambda>ra. action (snd ra) \<in> set CONTROLLER_ACTIONS)
                 (all_actions (rulesets startup_args)))"
    by (subst sa1) simp
  have 4: "list_all (\<lambda>e. \<not> probe_event e) (validate_trace env)"
    by (auto simp: validate_trace_def list_all_iff)
  note rv = run_validate_eq [OF assms(1-5)]
  from assms(7) have 2: "check_controller_connection startup_args1 \<longrightarrow>
          trace s' = trace s @ validate_trace env @ probe_trace w startup_args (runner s)
          \<and> r = (if \<not> validate_url w (controller_url startup_args) ''controller''
                 then Inl (InvalidUrlException ''Invalid controller url.'')
                 else case get_config w (configured_runner startup_args (runner s)) of
                        Inl msg \<Rightarrow> Inl (CollaboratorError msg)
                      | Inr version \<Rightarrow> Inr (validated_args startup_args1 vars env))"
    by (auto simp add: rv validate_controller_params_eq [OF t]
          pt cr url split: sum.splits if_splits)
  from assms(7) have 3: "\<not> check_controller_connection startup_args1 \<longrightarrow>
          trace s' = trace s @ validate_trace env
          \<and> r = Inr (validated_args startup_args1 vars env)"
    by (auto simp add: rv)
  from 1 2 3 4 show ?thesis by blast
qed

theorem controller_url_checked_witness:
  "trace (snd (run_validate demo_world (controller_args (Some ''https://controller.example''))
                 initial_state)) =
     [Validate_actions, Validate_variables, Decrypted_context, Substitute_variables,
      Validate_url (Some ''https://controller.example'') ''controller'', Get_config,
      Logger ''info'' ''AAP Version 4.4'']
   \<and> fst (run_validate demo_world (controller_args (Some ''not a url'')) initial_state) =
       Inl (InvalidUrlException ''Invalid controller url.'')"
  using controller_url_checked
    [where w = demo_world
       and startup_args = "controller_args (Some ''https://controller.example'')"
       and ?startup_args1.0 = "(controller_args (Some ''https://controller.example''))
           \<lparr>check_controller_connection := True\<rparr>"
       and vars = "[]" and env = "[]" and s = initial_state
       and r = "fst (run_validate demo_world (controller_args (Some ''https://controller.example''))
                initial_state)"
       and s' = "snd (run_validate demo_world (controller_args (Some ''https://controller.example''))
                initial_state)"]
  by (simp add: run_defs demo_defs controller_args_def rule_with_def)

theorem controller_url_checked_counterexample:
  "arg_controller_url (demo_args\<lparr>arg_controller_url := Some ''not a url''\<rparr>) = Some ''not a url''
   \<and> \<not> validate_url demo_world (Some ''not a url'') ''controller''
   \<and> run [demo_world] (demo_args\<lparr>arg_controller_url := Some ''not a url''\<rparr>) initial_state =
       (Some (Inr ()),
        initial_state
          \<lparr>queues := [0, 1, 1],
           tasks := [Start_source ''range'' [None] [] 1 60,
                     Start_source ''webhook'' [None] [] 1 60,
                     Start_source ''kafka'' [None] [] 2 60,
                     Send_event_log_to_websocket (Asyncio_Queue 0)],
           trace :=
             [Logger ''critical''
                ''HOT-RELOAD: Hot-reload was requested, will monitor for rulebook file changes'',
              Validate_actions, Validate_variables, Decrypted_context, Substitute_variables,
              New_queue 0 0, Logger ''info'' ''Starting sources'',
              New_queue 1 1,
              Create_task 0 (Start_source ''range'' [None] [] 1 60),
              Create_task 1 (Start_source ''webhook'' [None] [] 1 60),
              New_queue 2 1,
              Create_task 2 (Start_source ''kafka'' [None] [] 2 60),
              Logger ''info'' ''Starting rules'',
              Create_task 3 (Send_event_log_to_websocket (Asyncio_Queue 0)),
              Run_rulesets (Asyncio_Queue 0) (zip demo_rulesets [1, 2]) (Some ''rules.yml''),
              Put (Asyncio_Queue 0) [(''type'', ''Exit'')], Wait [3] 5,
              Logger ''info'' ''Cancelling event source tasks'',
              Cancel 0, Cancel 1, Cancel 2, Cancel 3, Gather [0, 1, 2, 3],
              Logger ''info'' ''Main complete'', Close_session]\<rparr>)"
  by (simp add: run_defs demo_defs)

text \<open>
  The checks of start-up, read off the claim: the checks on one action (inventory
  configured and on disk, controller URL or token configured, arguments decryptable
  when the rule book had vaulted content), the decryptability of the variables, the
  export of the environment, and the URL validation and the fetch of the remote
  configuration when the controller check is on.
\<close>

definition action_check_fails :: "world \<Rightarrow> StartupArgs \<Rightarrow> Rule \<times> Action \<Rightarrow> bool" where
  "action_check_fails w startup_args ra =
     (action (snd ra) \<in> set INVENTORY_ACTIONS
        \<and> (case inventory startup_args of
              None \<Rightarrow> True
            | Some p \<Rightarrow> p = [] \<or> \<not> os_path_exists w p)
      \<or> action (snd ra) \<in> set CONTROLLER_ACTIONS
        \<and> \<not> truthy (controller_url startup_args) \<and> \<not> truthy (controller_token startup_args)
      \<or> check_vault startup_args \<and> isl (decryptable w (action_args (snd ra))))"

definition export_fails :: "world \<Rightarrow> StartupArgs \<Rightarrow> bool" where
  "export_fails w startup_args =
     (case decrypted_context w (variables startup_args) of
        Inl msg \<Rightarrow> True
      | Inr vars \<Rightarrow>
          (case substitute_variables w (env_vars startup_args) vars of
             Inl msg \<Rightarrow> True
           | Inr env \<Rightarrow> \<not> env_legal env))"

definition controller_probe_fails :: "world \<Rightarrow> StartupArgs \<Rightarrow> job_template_runner \<Rightarrow> bool" where
  "controller_probe_fails w startup_args r =
     ((check_controller_connection startup_args
       \<or> list_ex (\<lambda>ra. action (snd ra) \<in> set CONTROLLER_ACTIONS)
            (all_actions (rulesets startup_args)))
      \<and> truthy (controller_url startup_args)
      \<and> (\<not> validate_url w (controller_url startup_args) ''controller''
         \<or> isl (get_config w (configured_runner startup_args r))))"

definition startup_check_fails :: "world \<Rightarrow> StartupArgs \<Rightarrow> job_template_runner \<Rightarrow> bool" where
  "startup_check_fails w startup_args r =
     (list_ex (action_check_fails w startup_args) (all_actions (rulesets startup_args))
      \<or> isl (decryptable_dict w (variables startup_args))
      \<or> export_fails w startup_args
      \<or> controller_probe_fails w startup_args r)"

lemma action_passes_iff: "action_passes w sa ra = (\<not> action_check_fails w sa ra)"
  by (cases "inventory sa"; cases "decryptable w (action_args (snd ra))")
     (auto simp add: action_passes_def action_check_fails_def validate_action_def bind_exc_def
        raise_if_def Let_def truthy_def path_exists_def collaborator_def
        INVENTORY_ACTIONS_def CONTROLLER_ACTIONS_def)

lemma validate_actions_isl:
  "isl (validate_actions w sa) =
     list_ex (action_check_fails w sa) (all_actions (rulesets sa))"
proof (cases "list_all (action_passes w sa) (all_actions (rulesets sa))")
  case True
  from validate_pairs_flag_pass [OF True, of "check_controller_connection sa"] True
  show ?thesis
    by (simp add: validate_actions_pairs list_all_iff list_ex_iff action_passes_iff)
next
  case False
  then obtain ra where ra: "ra \<in> set (all_actions (rulesets sa))" "\<not> action_passes w sa ra"
    by (auto simp: list_all_iff)
  from validate_pairs_flag_isl [OF ra, of "check_controller_connection sa"] ra
  show ?thesis
    by (auto simp add: validate_actions_pairs list_ex_iff action_passes_iff)
qed

lemma validate_controller_params_none:
  "\<not> truthy (controller_url sa) \<Longrightarrow> validate_controller_params w sa s = (Inr (), s)"
  by (simp add: validate_controller_params_def returns_def)

lemma run_validate_isl:
  "isl (fst (run_validate w sa s)) = startup_check_fails w sa (runner s)"
proof (cases "validate_actions w sa")
  case (Inl e)
  then have "list_ex (action_check_fails w sa) (all_actions (rulesets sa))"
    using validate_actions_isl [of w sa] by simp
  with Inl show ?thesis
    by (simp add: startup_check_fails_def run_validate_def bind_st_def emit_def lift_exc_def)
next
  case va: (Inr sa1)
  note sa1 = validate_actions_Inr [OF va]
  have no_action: "\<not> list_ex (action_check_fails w sa) (all_actions (rulesets sa))"
    using validate_actions_isl [of w sa] va by simp
  have vars: "variables sa1 = variables sa" and envs: "env_vars sa1 = env_vars sa"
    by (subst sa1, simp)+
  show ?thesis
  proof (cases "decryptable_dict w (variables sa)")
    case (Inl msg)
    with va vars show ?thesis
      by (simp add: startup_check_fails_def run_validate_def validate_variables_def
            collaborator_def bind_st_def emit_def lift_exc_def)
  next
    case dd: (Inr u)
    then have vv: "validate_variables w sa1 = Inr ()"
      by (simp add: validate_variables_def collaborator_def vars)
    show ?thesis
    proof (cases "decrypted_context w (variables sa)")
      case (Inl msg)
      with va vv vars dd no_action show ?thesis
        by (simp add: startup_check_fails_def export_fails_def run_validate_def
              collaborator_def bind_st_def emit_def lift_exc_def returns_def)
    next
      case dc: (Inr vs)
      show ?thesis
      proof (cases "substitute_variables w (env_vars sa) vs")
        case (Inl msg)
        with va vv vars envs dd dc no_action show ?thesis
          by (simp add: startup_check_fails_def export_fails_def run_validate_def
                collaborator_def bind_st_def emit_def lift_exc_def returns_def)
      next
        case sv: (Inr env)
        show ?thesis
        proof (cases "env_legal env")
          case False
          let ?s3 = "s\<lparr>trace := trace s @
            [Validate_actions, Validate_variables, Decrypted_context, Substitute_variables]\<rparr>"
          from export_env_illegal [OF False, of ?s3]
          obtain e s4 where "export_env env ?s3 = (Inl e, s4)"
            by (cases "export_env env ?s3") (auto simp: isl_def)
          with va vv vars envs dd dc sv no_action False show ?thesis
            by (simp add: startup_check_fails_def export_fails_def run_validate_def
                  collaborator_def bind_st_def emit_def lift_exc_def returns_def)
        next
          case legal: True
          note rv = run_validate_eq [OF va vv dc [folded vars] sv [folded envs] legal]
          let ?sa3 = "validated_args sa1 vs env"
          have flag: "check_controller_connection sa1 =
            (check_controller_connection sa
             \<or> list_ex (\<lambda>ra. action (snd ra) \<in> set CONTROLLER_ACTIONS)
                  (all_actions (rulesets sa)))"
            by (subst sa1) simp
          have fields:
            "controller_url ?sa3 = controller_url sa"
            "controller_token ?sa3 = controller_token sa"
            "controller_ssl_verify ?sa3 = controller_ssl_verify sa"
            "controller_username ?sa3 = controller_username sa"
            "controller_password ?sa3 = controller_password sa"
            by (subst sa1, simp add: validated_args_def)+
          have cr: "configured_runner ?sa3 = configured_runner sa"
            by (simp add: configured_runner_def fields fun_eq_iff Let_def cong: if_cong)
          have no_other: "startup_check_fails w sa (runner s) =
            controller_probe_fails w sa (runner s)"
            using no_action dd dc sv legal
            by (simp add: startup_check_fails_def export_fails_def)
          show ?thesis
          proof (cases "check_controller_connection sa1 \<and> truthy (controller_url sa)")
            case True
            then have t: "truthy (controller_url ?sa3)" by (simp add: fields)
            from True show ?thesis
              by (auto simp add: rv no_other controller_probe_fails_def flag [symmetric]
                    validate_controller_params_eq [OF t] cr fields collaborator_def
                    split: sum.splits)
          next
            case False
            then show ?thesis
              by (auto simp add: rv no_other controller_probe_fails_def flag [symmetric]
                    validate_controller_params_none fields)
          qed
        qed
      qed
    qed
  qed
qed

lemma run_validate_Inr:
  assumes "run_validate w sa s = (Inr sa', s')"
  shows "\<exists>rest. trace s' = trace s @ validate_trace (env_vars sa') @ rest"
proof -
  from assms have nf: "\<not> startup_check_fails w sa (runner s)"
    using run_validate_isl [of w sa s] by simp
  then have "\<not> isl (validate_actions w sa)"
    by (simp add: startup_check_fails_def validate_actions_isl)
  then obtain sa1 where va: "validate_actions w sa = Inr sa1"
    by (cases "validate_actions w sa") auto
  note sa1 = validate_actions_Inr [OF va]
  have vars: "variables sa1 = variables sa" and envs: "env_vars sa1 = env_vars sa"
    by (subst sa1, simp)+
  from nf have vv: "validate_variables w sa1 = Inr ()"
    by (cases "decryptable_dict w (variables sa)")
       (auto simp add: startup_check_fails_def validate_variables_def collaborator_def vars)
  from nf obtain vs where dc: "decrypted_context w (variables sa1) = Inr vs"
    by (cases "decrypted_context w (variables sa)")
       (auto simp add: startup_check_fails_def export_fails_def vars)
  from nf dc obtain env where sv: "substitute_variables w (env_vars sa1) vs = Inr env"
    by (cases "substitute_variables w (env_vars sa) vs")
       (auto simp add: startup_check_fails_def export_fails_def vars envs)
  from nf dc sv have legal: "env_legal env"
    by (auto simp add: startup_check_fails_def export_fails_def vars envs)
  note rv = run_validate_eq [OF va vv dc sv legal]
  let ?s3 = "s\<lparr>os_environ := fold (\<lambda>(k, v). AList.update k v) env (os_environ s),
                 trace := trace s @ validate_trace env\<rparr>"
  show ?thesis
  proof (cases "check_controller_connection sa1")
    case True
    from emits_validate_controller_params [of w "validated_args sa1 vs env"]
    obtain rest where
      "trace (snd (validate_controller_params w (validated_args sa1 vs env) ?s3)) =
         trace ?s3 @ rest"
      unfolding emits_def by blast
    with assms True show ?thesis
      by (auto simp add: rv validated_args_def split: prod.splits sum.splits)
  next
    case False
    with assms show ?thesis
      by (auto simp add: rv validated_args_def)
  qed
qed

lemma run_startup_Inr:
  assumes "run_startup w pa s = (Inr (sa, fm), s1)"
  shows "\<exists>before rest. trace s1 = trace s @ before @
            Validate_actions # Validate_variables # Decrypted_context # Substitute_variables #
            map (\<lambda>(k, v). Setenv k v) (env_vars sa) @ rest"
proof -
  from assms obtain sa0 s0 where l: "run_load w pa s = (Inr (sa0, fm), s0)"
    and v: "run_validate w sa0 s0 = (Inr sa, s1)"
    by (auto simp add: run_startup_def bind_st_def returns_def split: prod.splits sum.splits)
  from emits_run_load [of w pa] l obtain before where b: "trace s0 = trace s @ before"
    unfolding emits_def by (metis snd_conv)
  from run_validate_Inr [OF v] obtain rest where
    "trace s1 = trace s0 @ validate_trace (env_vars sa) @ rest"
    by blast
  with b show ?thesis
    by (auto simp add: validate_trace_def)
qed

lemma run_startup_isl:
  assumes "run_load w pa s = (Inr (sa0, fm), s0)"
  shows "isl (fst (run_startup w pa s)) = startup_check_fails w sa0 (runner s0)"
    and "\<not> startup_check_fails w sa0 (runner s0) \<Longrightarrow>
           \<exists>sa s1. run_startup w pa s = (Inr (sa, fm), s1)"
proof -
  show 1: "isl (fst (run_startup w pa s)) = startup_check_fails w sa0 (runner s0)"
    using run_validate_isl [of w sa0 s0] assms
    by (cases "run_validate w sa0 s0")
       (auto simp add: run_startup_def bind_st_def returns_def split: sum.splits)
  assume "\<not> startup_check_fails w sa0 (runner s0)"
  with run_validate_isl [of w sa0 s0] assms
  show "\<exists>sa s1. run_startup w pa s = (Inr (sa, fm), s1)"
    by (cases "run_validate w sa0 s0")
       (auto simp add: run_startup_def bind_st_def returns_def split: sum.splits)
qed

lemma startup_not_task: "startup_event e \<Longrightarrow> \<not> task_event e"
  by (cases e) simp_all

lemma start_not_validation: "start_event e \<Longrightarrow> \<not> validation_event e"
  by (cases e) simp_all

lemma shutdown_trace_no_validation:
  "list_all (\<lambda>e. \<not> validation_event e) (shutdown_trace w el fb ts)"
proof -
  have "list_all (\<lambda>e. \<not> validation_event e) (result_log r)" for r
    by (cases r) (auto simp: exception_log_def frame_line_def list_all_iff split: option.splits)
  then have "list_all (\<lambda>e. \<not> validation_event e)
               (concat (map (\<lambda>t. result_log (task_result w t)) ts))"
    by (induction ts) (auto simp: list_all_iff)
  then show ?thesis
    by (auto simp add: shutdown_trace_def list_all_iff split: option.splits)
qed

lemma start_trace_no_validation:
  "list_all (\<lambda>e. \<not> validation_event e) (start_trace pa sa fm nq nt)"
proof -
  from start_trace_split [of pa sa fm nq nt] obtain tr rqs where
    "start_trace pa sa fm nq nt =
       tr @ [Run_rulesets (if truthy (arg_websocket_url pa) then Asyncio_Queue nq else NullQueue)
               rqs fm]" "list_all start_event tr"
    by blast
  then show ?thesis
    using start_not_validation by (auto simp: list_all_iff)
qed

text \<open>
  C4. The trace of a pass through \<^verbatim>\<open>run\<close> splits in two. The first part has no new
  task and no new queue; the second part has none of the validation events: the calls of
  \<^verbatim>\<open>validate_actions\<close>, \<^verbatim>\<open>validate_variables\<close>, \<^verbatim>\<open>decrypted_context\<close> and
  \<^verbatim>\<open>substitute_variables\<close>, the export of an environment variable, the URL validation
  and the fetch of the remote configuration. When start-up raises, \<^verbatim>\<open>run\<close> raises the
  same exception, the second part is empty and no task and no queue has been made. When
  start-up passes, the first part holds the validation of the actions and of the
  variables and the export of every environment variable, and the tasks of the pass are
  all made after it. Once \<^verbatim>\<open>startup_args\<close> is loaded, start-up raises, with no task
  made, whenever one of its checks fails: an action that needs an inventory with none
  configured or none on disk, an action that needs a controller with neither URL nor
  token, action arguments or variables that do not decrypt, an environment that does not
  substitute or export, or, with the controller check on and a URL configured, a URL that
  is not valid or a configuration that cannot be fetched. When no check fails, start-up
  passes.
\<close>

theorem startup_before_tasks:
  assumes "run_once w parsed_args s = (r, s')"
  shows "\<exists>pre post.
      trace s' = trace s @ pre @ post
      \<and> list_all (\<lambda>e. \<not> task_event e) pre
      \<and> list_all (\<lambda>e. \<not> validation_event e) post
      \<and> (case run_startup w parsed_args s of
            (Inl e, s1) \<Rightarrow>
              r = Inl e \<and> s' = s1 \<and> post = [] \<and> tasks s' = tasks s \<and> queues s' = queues s
              \<and> run (w # ws) parsed_args s = (Some (Inl e), s')
          | (Inr (startup_args, file_monitor), s1) \<Rightarrow>
              trace s1 = trace s @ pre \<and> tasks s1 = tasks s
              \<and> Validate_actions \<in> set pre \<and> Validate_variables \<in> set pre
              \<and> list_all (\<lambda>(k, v). Setenv k v \<in> set pre) (env_vars startup_args)
              \<and> length (tasks s') = length (tasks s) + total_sources (rulesets startup_args)
                   + (if truthy (arg_websocket_url parsed_args) then 1 else 0))
      \<and> (\<forall>startup_args0 file_monitor s0.
            run_load w parsed_args s = (Inr (startup_args0, file_monitor), s0) \<longrightarrow>
            (startup_check_fails w startup_args0 (runner s0) \<longrightarrow>
               post = [] \<and> tasks s' = tasks s \<and> queues s' = queues s
               \<and> (\<exists>e. r = Inl e \<and> run (w # ws) parsed_args s = (Some (Inl e), s')))
            \<and> (\<not> startup_check_fails w startup_args0 (runner s0) \<longrightarrow>
                 (\<exists>startup_args s1.
                    run_startup w parsed_args s = (Inr (startup_args, file_monitor), s1))))"
proof -
  obtain r1 s1 where st: "run_startup w parsed_args s = (r1, s1)"
    by (cases "run_startup w parsed_args s")
  from run_startup_emits [OF st] obtain pre where pre: "list_all startup_event pre"
    "trace s1 = trace s @ pre" "tasks s1 = tasks s" "queues s1 = queues s"
    by blast
  have quiet: "list_all (\<lambda>e. \<not> task_event e) pre"
    using pre(1) startup_not_task by (auto simp: list_all_iff)
  show ?thesis
  proof (cases r1)
    case (Inl e)
    note f = run_once_startup_fails [OF st [unfolded Inl]]
    with assms have rs: "r = Inl e" "s' = s1" by simp_all
    have checks: "\<not> startup_check_fails w sa0 (runner s0)
        \<longrightarrow> (\<exists>sa s1. run_startup w parsed_args s = (Inr (sa, fm), s1))"
      if "run_load w parsed_args s = (Inr (sa0, fm), s0)" for sa0 fm s0
      using run_startup_isl(2) [OF that] by blast
    from rs pre quiet st Inl f checks show ?thesis
      by (intro exI [of _ pre] exI [of _ "[]"]) simp
  next
    case (Inr x)
    obtain sa fm where x: "x = (sa, fm)" by (cases x)
    note st' = st [unfolded Inr x]
    note S = run_once_started [OF st' assms]
    from run_startup_Inr [OF st'] pre(2) have ev:
      "Validate_actions \<in> set pre" "Validate_variables \<in> set pre"
      "list_all (\<lambda>(k, v). Setenv k v \<in> set pre) (env_vars sa)"
      by (auto simp: list_all_iff)
    let ?post = "drop (length (trace s1)) (trace s')"
    have post: "trace s' = trace s1 @ ?post \<and> list_all (\<lambda>e. \<not> validation_event e) ?post"
    proof (cases "run_rulesets w fm")
      case (Inl msg)
      with S show ?thesis
        using start_trace_no_validation by simp
    next
      case (Inr reload)
      with S show ?thesis
        using start_trace_no_validation shutdown_trace_no_validation by simp
    qed
    from S have len: "length (tasks s') = length (tasks s) + total_sources (rulesets sa)
                   + (if truthy (arg_websocket_url parsed_args) then 1 else 0)"
      by (simp add: pre)
    have checks: "\<not> startup_check_fails w sa0 (runner s0) \<and> fm0 = fm"
      if "run_load w parsed_args s = (Inr (sa0, fm0), s0)" for sa0 fm0 s0
      using run_startup_isl [OF that] st' by auto
    from post pre quiet ev len st' checks show ?thesis
      by (intro exI [of _ pre] exI [of _ ?post]) auto
  qed
qed

theorem startup_before_tasks_witness:
  "run [unreachable_world] controller_cli_args initial_state =
     (Some (Inl (CollaboratorError ''connection refused'')),
      initial_state
        \<lparr>runner := \<lparr>host = Some ''https://controller.example'', token = Some ''secret'',
                     verify_ssl = None, username = None, password = None\<rparr>,
         trace :=
           [Logger ''critical''
              ''HOT-RELOAD: Hot-reload was requested, will monitor for rulebook file changes'',
            Validate_actions, Validate_variables, Decrypted_context, Substitute_variables,
            Validate_url (Some ''https://controller.example'') ''controller'', Get_config]\<rparr>)
   \<and> run [illegal_env_world] demo_args initial_state =
     (Some (Inl (ValueError ''illegal environment variable name'')),
      initial_state
        \<lparr>os_environ := [(''HOME'', ''/tmp'')],
         trace :=
           [Logger ''critical''
              ''HOT-RELOAD: Hot-reload was requested, will monitor for rulebook file changes'',
            Validate_actions, Validate_variables, Decrypted_context, Substitute_variables,
            Setenv ''HOME'' ''/tmp'']\<rparr>)
   \<and> run [vaulted_vars_world] demo_args initial_state =
     (Some (Inl (CollaboratorError ''vaulted string in variables'')),
      initial_state
        \<lparr>trace :=
           [Logger ''critical''
              ''HOT-RELOAD: Hot-reload was requested, will monitor for rulebook file changes'',
            Validate_actions, Validate_variables]\<rparr>)"
  using startup_before_tasks
    [of unreachable_world controller_cli_args initial_state
        "fst (run_once unreachable_world controller_cli_args initial_state)"
        "snd (run_once unreachable_world controller_cli_args initial_state)" "[]"]
  by (simp add: run_defs demo_defs unreachable_world_def controller_cli_args_def rule_with_def
        illegal_env_world_def vaulted_vars_world_def)

end
